theory Spec2Isabelle
  imports Main "HOL-Library.Word" "HOL-Library.Monad_Syntax"
begin

unbundle bit_operations_syntax

section \<open>Kernel types and constants used by the drivers\<close>

text \<open>
  C pointers are addresses; \<open>NULL\<close> is address 0.  The C type \<open>int\<close> carries only
  error codes and return values here and is modelled by \<open>int\<close>.
\<close>

type_synonym ptr = nat
type_synonym u16 = "16 word"
type_synonym u32 = "32 word"

definition NULL :: ptr where
  "NULL = 0"

text \<open>
  Error numbers of \<^verbatim>\<open>include/uapi/asm-generic/errno-base.h\<close> and
  \<^verbatim>\<open>include/linux/errno.h\<close>; the headers are not among the files studied here,
  the values are the kernel's.
\<close>

definition ENOMEM :: int where "ENOMEM = 12"
definition EFAULT :: int where "EFAULT = 14"
definition EINVAL :: int where "EINVAL = 22"
definition EPROBE_DEFER :: int where "EPROBE_DEFER = 517"

text \<open>
  Media bus formats of \<^verbatim>\<open>include/uapi/linux/media-bus-format.h\<close> (again a header
  outside the files studied; the values are the kernel's).
\<close>

definition MEDIA_BUS_FMT_RGB666_1X18 :: u32 where "MEDIA_BUS_FMT_RGB666_1X18 = 0x1009"
definition MEDIA_BUS_FMT_RBG888_1X24 :: u32 where "MEDIA_BUS_FMT_RBG888_1X24 = 0x100e"
definition MEDIA_BUS_FMT_UYVY8_1X16 :: u32 where "MEDIA_BUS_FMT_UYVY8_1X16 = 0x200f"
definition MEDIA_BUS_FMT_VUY8_1X24 :: u32 where "MEDIA_BUS_FMT_VUY8_1X24 = 0x2024"
definition MEDIA_BUS_FMT_UYVY10_1X20 :: u32 where "MEDIA_BUS_FMT_UYVY10_1X20 = 0x201a"

text \<open>The macro \<^verbatim>\<open>BIT(n)\<close> of \<^verbatim>\<open>include/linux/bits.h\<close>.\<close>

definition BIT :: "nat \<Rightarrow> u32" where
  "BIT n = push_bit n 1"

section \<open>xlnx\_vtc.h: the timing controller interface\<close>

text \<open>
  \<^verbatim>\<open>struct videomode\<close> of \<^verbatim>\<open>include/video/videomode.h\<close>; the driver only passes
  it on to the timing controller.
\<close>

record videomode =
  pixelclock :: nat
  hactive :: u32
  hfront_porch :: u32
  hback_porch :: u32
  hsync_len :: u32
  vactive :: u32
  vfront_porch :: u32
  vback_porch :: u32
  vsync_len :: u32

text \<open>
  A pointer to a \<^verbatim>\<open>struct list_head\<close> is \<open>NULL\<close>, one of the two poison values
  \<^verbatim>\<open>LIST_POISON1\<close> and \<^verbatim>\<open>LIST_POISON2\<close> that \<^verbatim>\<open>list_del\<close> leaves behind, the address
  of the head of the registry's list (\<^verbatim>\<open>&vtc_list.head\<close>), or the address of the
  \<^verbatim>\<open>list\<close> member of the interface object at a given address (\<^verbatim>\<open>&vtc->list\<close>;
  \<^verbatim>\<open>container_of\<close> leads back to the object).
\<close>

datatype list_ptr = Lnull | Lpoison1 | Lpoison2 | Lhead | Lentry ptr

record list_head =
  "next" :: list_ptr
  prev :: list_ptr

text \<open>
  \<^verbatim>\<open>struct xlnx_vtc_iface\<close>; \<open>list_entry\<close> is its member \<^verbatim>\<open>list\<close>.  A callback is a
  function pointer that may be \<open>NULL\<close>: \<open>None\<close> is the null pointer, \<open>Some r\<close> a
  callback of the peripheral driver that returns \<open>r\<close>.
\<close>

record xlnx_vtc_iface =
  list_entry :: list_head
  of_node :: ptr
  enable :: "int option"
  disable :: "unit option"
  set_timing :: "int option"

text \<open>The memory holding the interface objects, by address.\<close>

type_synonym vtc_mem = "ptr \<Rightarrow> xlnx_vtc_iface"

section \<open>xlnx\_vtc\_list.c: the list of registered timing controllers\<close>

text \<open>
  \<^verbatim>\<open>struct xlnx_vtc_list\<close>.  The mutex serialises the operations; every operation
  below is one critical section.  The object is static, so it starts zeroed.
\<close>

record xlnx_vtc_list =
  head :: list_head
  initialized :: bool

definition zeroed_vtc_list :: xlnx_vtc_list where
  "zeroed_vtc_list = \<lparr>head = \<lparr>next = Lnull, prev = Lnull\<rparr>, initialized = False\<rparr>"

text \<open>
  The memory the list functions work on: the interface objects and the list
  object.  Reading or writing through \<open>NULL\<close> or a poison value is a kernel oops:
  the call does not return, which is \<open>None\<close>.
\<close>

type_synonym vtc_heap = "vtc_mem \<times> xlnx_vtc_list"

fun list_head_at :: "vtc_heap \<Rightarrow> list_ptr \<Rightarrow> list_head option" where
  "list_head_at (mem, vtc_list) Lhead = Some (head vtc_list)"
| "list_head_at (mem, vtc_list) (Lentry p) =
     (if p = NULL then None else Some (list_entry (mem p)))"
| "list_head_at (mem, vtc_list) Lnull = None"
| "list_head_at (mem, vtc_list) Lpoison1 = None"
| "list_head_at (mem, vtc_list) Lpoison2 = None"

fun list_head_store :: "list_ptr \<Rightarrow> list_head \<Rightarrow> vtc_heap \<Rightarrow> vtc_heap option" where
  "list_head_store Lhead lh (mem, vtc_list) = Some (mem, vtc_list\<lparr>head := lh\<rparr>)"
| "list_head_store (Lentry p) lh (mem, vtc_list) =
     (if p = NULL then None else Some (mem(p := (mem p)\<lparr>list_entry := lh\<rparr>), vtc_list))"
| "list_head_store Lnull lh (mem, vtc_list) = None"
| "list_head_store Lpoison1 lh (mem, vtc_list) = None"
| "list_head_store Lpoison2 lh (mem, vtc_list) = None"

definition get_next :: "vtc_heap \<Rightarrow> list_ptr \<Rightarrow> list_ptr option" where
  "get_next h p = map_option next (list_head_at h p)"

definition get_prev :: "vtc_heap \<Rightarrow> list_ptr \<Rightarrow> list_ptr option" where
  "get_prev h p = map_option prev (list_head_at h p)"

definition set_next :: "list_ptr \<Rightarrow> list_ptr \<Rightarrow> vtc_heap \<Rightarrow> vtc_heap option" where
  "set_next p v h = do { lh \<leftarrow> list_head_at h p; list_head_store p (lh\<lparr>next := v\<rparr>) h }"

definition set_prev :: "list_ptr \<Rightarrow> list_ptr \<Rightarrow> vtc_heap \<Rightarrow> vtc_heap option" where
  "set_prev p v h = do { lh \<leftarrow> list_head_at h p; list_head_store p (lh\<lparr>prev := v\<rparr>) h }"

text \<open>
  The list functions of \<^verbatim>\<open>include/linux/list.h\<close> (a header outside the files
  studied), as the kernel defines them without \<^verbatim>\<open>CONFIG_DEBUG_LIST\<close>:
  \<open>list_add_between\<close> is \<^verbatim>\<open>__list_add(new, prev, next)\<close>, \<open>list_del_between\<close> is
  \<^verbatim>\<open>__list_del(prev, next)\<close>.  They write the pointers whatever state the list
  is in.
\<close>

definition list_add_between ::
  "list_ptr \<Rightarrow> list_ptr \<Rightarrow> list_ptr \<Rightarrow> vtc_heap \<Rightarrow> vtc_heap option" where
  "list_add_between new p n h =
     do {
       h \<leftarrow> set_prev n new h;
       h \<leftarrow> set_next new n h;
       h \<leftarrow> set_prev new p h;
       set_next p new h
     }"

definition list_add_tail :: "list_ptr \<Rightarrow> list_ptr \<Rightarrow> vtc_heap \<Rightarrow> vtc_heap option" where
  "list_add_tail new lhead h = do { p \<leftarrow> get_prev h lhead; list_add_between new p lhead h }"

definition list_del_between :: "list_ptr \<Rightarrow> list_ptr \<Rightarrow> vtc_heap \<Rightarrow> vtc_heap option" where
  "list_del_between p n h = do { h \<leftarrow> set_prev n p h; set_next p n h }"

definition list_del :: "list_ptr \<Rightarrow> vtc_heap \<Rightarrow> vtc_heap option" where
  "list_del entry h =
     do {
       p \<leftarrow> get_prev h entry;
       n \<leftarrow> get_next h entry;
       h \<leftarrow> list_del_between p n h;
       h \<leftarrow> set_next entry Lpoison1 h;
       set_prev entry Lpoison2 h
     }"

text \<open>\<^verbatim>\<open>INIT_LIST_HEAD\<close> makes the head point at itself.\<close>

definition xlnx_vtc_list_init :: "xlnx_vtc_list \<Rightarrow> int \<times> xlnx_vtc_list" where
  "xlnx_vtc_list_init vtc_list =
     (if \<not> initialized vtc_list
      then (0, vtc_list\<lparr>head := \<lparr>next = Lhead, prev = Lhead\<rparr>, initialized := True\<rparr>)
      else (0, vtc_list))"

definition xlnx_vtc_list_fini :: "xlnx_vtc_list \<Rightarrow> xlnx_vtc_list" where
  "xlnx_vtc_list_fini vtc_list =
     (if initialized vtc_list then vtc_list\<lparr>initialized := False\<rparr> else vtc_list)"

text \<open>
  Registering and unregistering return the memory they leave, or do not return.
\<close>

definition xlnx_vtc_register ::
  "vtc_mem \<Rightarrow> ptr \<Rightarrow> xlnx_vtc_list \<Rightarrow> (int \<times> vtc_mem \<times> xlnx_vtc_list) option" where
  "xlnx_vtc_register mem vtc vtc_list =
     (if vtc = NULL \<or> of_node (mem vtc) = NULL then Some (- EINVAL, mem, vtc_list)
      else if \<not> initialized vtc_list then Some (- EFAULT, mem, vtc_list)
      else do { h \<leftarrow> list_add_tail (Lentry vtc) Lhead (mem, vtc_list); Some (0, h) })"

definition xlnx_vtc_unregister ::
  "vtc_mem \<Rightarrow> ptr \<Rightarrow> xlnx_vtc_list \<Rightarrow> (vtc_mem \<times> xlnx_vtc_list) option" where
  "xlnx_vtc_unregister mem vtc vtc_list =
     (if vtc = NULL \<or> \<not> initialized vtc_list then Some (mem, vtc_list)
      else list_del (Lentry vtc) (mem, vtc_list))"

text \<open>
  The loop \<^verbatim>\<open>list_for_each_entry\<close> in \<^verbatim>\<open>xlnx_of_find_vtc\<close>, from the entry \<open>pos\<close>
  on: \<open>ret\<close> and \<open>vtc\<close> are the function's result variable and the caller's
  output slot \<^verbatim>\<open>*vtc\<close>.  The loop ends when it is back at the head; on a list
  whose pointers never lead back there it does not return.
\<close>

partial_function (option) find_vtc_loop ::
  "vtc_mem \<Rightarrow> ptr \<Rightarrow> list_ptr \<Rightarrow> int \<Rightarrow> ptr \<Rightarrow> (int \<times> ptr) option" where
  "find_vtc_loop mem np pos ret vtc =
     (case pos of
        Lhead \<Rightarrow> Some (ret, vtc)
      | Lentry vtc_pos \<Rightarrow>
          if vtc_pos = NULL then None
          else if of_node (mem vtc_pos) = np then Some (0, vtc_pos)
          else find_vtc_loop mem np (next (list_entry (mem vtc_pos))) ret vtc
      | Lnull \<Rightarrow> None
      | Lpoison1 \<Rightarrow> None
      | Lpoison2 \<Rightarrow> None)"

text \<open>
  \<^verbatim>\<open>xlnx_of_find_vtc(np, vtc)\<close>: the third argument is the value the caller's
  slot \<^verbatim>\<open>*vtc\<close> holds on entry, the second component of the result the value it
  holds on return.
\<close>

definition xlnx_of_find_vtc ::
  "vtc_mem \<Rightarrow> ptr \<Rightarrow> ptr \<Rightarrow> xlnx_vtc_list \<Rightarrow> (int \<times> ptr) option" where
  "xlnx_of_find_vtc mem np vtc_in vtc_list =
     (let ret = - EPROBE_DEFER;
          vtc = NULL
      in if \<not> initialized vtc_list then Some (ret, vtc)
         else find_vtc_loop mem np (next (head vtc_list)) ret vtc)"

text \<open>
  What the two drivers do to the outside is kept as a sequence of calls, oldest
  first: register writes (offset and value), calls through the callbacks of a
  timing controller, and calls into the DRM core and the kernel.  Of
  \<^verbatim>\<open>struct drm_pending_vblank_event\<close> the drivers touch the completion its base
  points to and the \<^verbatim>\<open>pipe\<close> field.
\<close>

record drm_pending_vblank_event =
  base_completion :: ptr
  pipe :: nat

datatype call =
    Writel nat u32
  | Vtc_set_timing ptr videomode
  | Vtc_enable ptr
  | Vtc_disable ptr
  | Drm_crtc_handle_vblank
  | Drm_crtc_send_vblank_event drm_pending_vblank_event
  | Drm_crtc_vblank_get
  | Drm_crtc_vblank_put
  | Drm_crtc_vblank_on
  | Drm_crtc_vblank_off
  | Complete_all ptr

text \<open>
  The three forwarding functions: a callback that is \<open>NULL\<close> is not called, and
  the two functions with a result return \<open>-EINVAL\<close> then.
\<close>

definition xlnx_vtc_iface_enable :: "vtc_mem \<Rightarrow> ptr \<Rightarrow> call list \<Rightarrow> int \<times> call list" where
  "xlnx_vtc_iface_enable mem vtc cs =
     (if vtc = NULL then (- EINVAL, cs)
      else (case enable (mem vtc) of
              None \<Rightarrow> (- EINVAL, cs)
            | Some r \<Rightarrow> (r, cs @ [Vtc_enable vtc])))"

definition xlnx_vtc_iface_disable :: "vtc_mem \<Rightarrow> ptr \<Rightarrow> call list \<Rightarrow> call list" where
  "xlnx_vtc_iface_disable mem vtc cs =
     (if vtc = NULL then cs
      else (case disable (mem vtc) of
              None \<Rightarrow> cs
            | Some _ \<Rightarrow> cs @ [Vtc_disable vtc]))"

definition xlnx_vtc_iface_set_timing ::
  "vtc_mem \<Rightarrow> ptr \<Rightarrow> videomode \<Rightarrow> call list \<Rightarrow> int \<times> call list" where
  "xlnx_vtc_iface_set_timing mem vtc vm cs =
     (if vtc = NULL then (- EINVAL, cs)
      else (case set_timing (mem vtc) of
              None \<Rightarrow> (- EINVAL, cs)
            | Some r \<Rightarrow> (r, cs @ [Vtc_set_timing vtc vm])))"

section \<open>xlnx\_tpg.c: the test pattern generator\<close>

definition XLNX_TPG_CONTROL :: nat where "XLNX_TPG_CONTROL = 0x0000"
definition XLNX_TPG_GLOBAL_IRQ_EN :: nat where "XLNX_TPG_GLOBAL_IRQ_EN = 0x0004"
definition XLNX_TPG_IP_IRQ_EN :: nat where "XLNX_TPG_IP_IRQ_EN = 0x0008"
definition XLNX_TPG_IP_IRQ_STATUS :: nat where "XLNX_TPG_IP_IRQ_STATUS = 0x000C"
definition XLNX_TPG_ACTIVE_HEIGHT :: nat where "XLNX_TPG_ACTIVE_HEIGHT = 0x0010"
definition XLNX_TPG_ACTIVE_WIDTH :: nat where "XLNX_TPG_ACTIVE_WIDTH = 0x0018"
definition XLNX_TPG_PATTERN_ID :: nat where "XLNX_TPG_PATTERN_ID = 0x0020"
definition XLNX_TPG_COLOR_FORMAT :: nat where "XLNX_TPG_COLOR_FORMAT = 0x0040"

definition XLNX_TPG_IP_IRQ_AP_DONE :: u32 where "XLNX_TPG_IP_IRQ_AP_DONE = BIT 0"

definition XLNX_TPG_START :: u32 where "XLNX_TPG_START = BIT 0"
definition XLNX_TPG_AUTO_RESTART :: u32 where "XLNX_TPG_AUTO_RESTART = BIT 7"

text \<open>\<^verbatim>\<open>enum xlnx_tpg_pattern\<close> counts from 1; only the default pattern is used below.\<close>

definition XTPG_PAT_COLOR_BARS :: u32 where "XTPG_PAT_COLOR_BARS = 9"

datatype xlnx_tpg_format =
    XTPG_FMT_RGB
  | XTPG_FMT_YUV_444
  | XTPG_FMT_YUV_422
  | XTPG_FMT_YUV_420
  | XTPG_FMT_INVALID

text \<open>The integer value of an enumerator, as written to a register.\<close>

fun xlnx_tpg_format_value :: "xlnx_tpg_format \<Rightarrow> u32" where
  "xlnx_tpg_format_value XTPG_FMT_RGB = 0"
| "xlnx_tpg_format_value XTPG_FMT_YUV_444 = 1"
| "xlnx_tpg_format_value XTPG_FMT_YUV_422 = 2"
| "xlnx_tpg_format_value XTPG_FMT_YUV_420 = 3"
| "xlnx_tpg_format_value XTPG_FMT_INVALID = 4"

datatype irqreturn = IRQ_NONE | IRQ_HANDLED

text \<open>The fields of \<^verbatim>\<open>struct drm_display_mode\<close> and \<^verbatim>\<open>struct drm_crtc_state\<close> the driver reads.\<close>

record drm_display_mode =
  clock :: nat
  hdisplay :: u16
  hsync_start :: u16
  hsync_end :: u16
  htotal :: u16
  vdisplay :: u16
  vsync_start :: u16
  vsync_end :: u16
  vtotal :: u16

record drm_crtc_state =
  state_enable :: bool
  state_output_bus_format :: u32
  state_event :: "drm_pending_vblank_event option"
  adjusted_mode :: drm_display_mode

text \<open>
  \<^verbatim>\<open>struct xlnx_tpg\<close> together with the parts of \<^verbatim>\<open>struct xlnx_tpg_drm\<close> the driver
  works on: \<open>drm_event\<close> is \<^verbatim>\<open>tpg->drm->event\<close>, \<open>crtc_state\<close> is
  \<^verbatim>\<open>tpg->drm->crtc.state\<close> and \<open>crtc_index\<close> what \<^verbatim>\<open>drm_crtc_index\<close> returns for the
  CRTC.  \<open>disp_bridge\<close> is a bridge's address, or \<open>Inl e\<close> for \<^verbatim>\<open>ERR_PTR(e)\<close>.
  \<open>regs\<close> is the mapped register space by offset, and \<open>calls\<close> the
  sequence of register writes and of calls into the timing controller and the
  DRM core made so far, oldest first.
\<close>

record xlnx_tpg =
  vtc :: ptr
  disp_bridge :: "int + ptr"
  regs :: "nat \<Rightarrow> u32"
  irq :: nat
  output_bus_format :: u32
  color_format :: xlnx_tpg_format
  drm_event :: "drm_pending_vblank_event option"
  crtc_state :: drm_crtc_state
  crtc_index :: nat
  calls :: "call list"

definition call :: "call \<Rightarrow> xlnx_tpg \<Rightarrow> xlnx_tpg" where
  "call c tpg = tpg\<lparr>calls := calls tpg @ [c]\<rparr>"

subsection \<open>Bus format to colour format\<close>

definition format_map :: "(u32 \<times> xlnx_tpg_format) list" where
  "format_map =
     [(MEDIA_BUS_FMT_RGB666_1X18, XTPG_FMT_RGB),
      (MEDIA_BUS_FMT_RBG888_1X24, XTPG_FMT_RGB),
      (MEDIA_BUS_FMT_UYVY8_1X16, XTPG_FMT_YUV_422),
      (MEDIA_BUS_FMT_VUY8_1X24, XTPG_FMT_YUV_444),
      (MEDIA_BUS_FMT_UYVY10_1X20, XTPG_FMT_YUV_422)]"

function bus_to_color_format_loop :: "u32 \<Rightarrow> nat \<Rightarrow> xlnx_tpg_format" where
  "bus_to_color_format_loop bus_format i =
     (if i < length format_map
      then (if fst (format_map ! i) = bus_format then snd (format_map ! i)
            else bus_to_color_format_loop bus_format (Suc i))
      else XTPG_FMT_INVALID)"
  by pat_completeness auto
termination
  by (relation "measure (\<lambda>(bus_format, i). length format_map - i)") auto

declare bus_to_color_format_loop.simps [simp del]

definition xlnx_tpg_bus_to_color_format :: "u32 \<Rightarrow> xlnx_tpg_format" where
  "xlnx_tpg_bus_to_color_format bus_format = bus_to_color_format_loop bus_format 0"

subsection \<open>TPG IP operations\<close>

definition xlnx_tpg_write :: "xlnx_tpg \<Rightarrow> nat \<Rightarrow> u32 \<Rightarrow> xlnx_tpg" where
  "xlnx_tpg_write tpg offset val =
     tpg\<lparr>regs := (regs tpg)(offset := val), calls := calls tpg @ [Writel offset val]\<rparr>"

definition xlnx_tpg_read :: "xlnx_tpg \<Rightarrow> nat \<Rightarrow> u32" where
  "xlnx_tpg_read tpg offset = regs tpg offset"

definition xlnx_tpg_set_dimensions :: "xlnx_tpg \<Rightarrow> u16 \<Rightarrow> u16 \<Rightarrow> xlnx_tpg" where
  "xlnx_tpg_set_dimensions tpg w h =
     (let tpg = xlnx_tpg_write tpg XLNX_TPG_ACTIVE_WIDTH (ucast w)
      in xlnx_tpg_write tpg XLNX_TPG_ACTIVE_HEIGHT (ucast h))"

definition xlnx_tpg_set_pattern :: "xlnx_tpg \<Rightarrow> u32 \<Rightarrow> xlnx_tpg" where
  "xlnx_tpg_set_pattern tpg pattern = xlnx_tpg_write tpg XLNX_TPG_PATTERN_ID pattern"

definition xlnx_tpg_set_format :: "xlnx_tpg \<Rightarrow> xlnx_tpg_format \<Rightarrow> xlnx_tpg" where
  "xlnx_tpg_set_format tpg format =
     xlnx_tpg_write tpg XLNX_TPG_COLOR_FORMAT (xlnx_tpg_format_value format)"

definition xlnx_tpg_start :: "xlnx_tpg \<Rightarrow> xlnx_tpg" where
  "xlnx_tpg_start tpg =
     xlnx_tpg_write tpg XLNX_TPG_CONTROL (XLNX_TPG_START OR XLNX_TPG_AUTO_RESTART)"

definition xlnx_tpg_enable_irq :: "xlnx_tpg \<Rightarrow> xlnx_tpg" where
  "xlnx_tpg_enable_irq tpg =
     (let tpg = xlnx_tpg_write tpg XLNX_TPG_GLOBAL_IRQ_EN 1
      in xlnx_tpg_write tpg XLNX_TPG_IP_IRQ_EN 1)"

definition xlnx_tpg_disable_irq :: "xlnx_tpg \<Rightarrow> xlnx_tpg" where
  "xlnx_tpg_disable_irq tpg =
     (let tpg = xlnx_tpg_write tpg XLNX_TPG_GLOBAL_IRQ_EN 0
      in xlnx_tpg_write tpg XLNX_TPG_IP_IRQ_EN 0)"

text \<open>
  The interrupt handler.  The section between \<^verbatim>\<open>spin_lock_irqsave\<close> and
  \<^verbatim>\<open>spin_unlock_irqrestore\<close> reads the slot, clears it and sends the event.
\<close>

definition xlnx_tpg_irq_handler :: "xlnx_tpg \<Rightarrow> irqreturn \<times> xlnx_tpg" where
  "xlnx_tpg_irq_handler tpg =
     (let status = xlnx_tpg_read tpg XLNX_TPG_IP_IRQ_STATUS;
          tpg = xlnx_tpg_write tpg XLNX_TPG_IP_IRQ_STATUS status;
          status = status AND XLNX_TPG_IP_IRQ_AP_DONE
      in if status = 0 then (IRQ_NONE, tpg)
         else
           (let tpg = call Drm_crtc_handle_vblank tpg;
                event = drm_event tpg;
                tpg = tpg\<lparr>drm_event := None\<rparr>;
                tpg = (case event of
                         None \<Rightarrow> tpg
                       | Some e \<Rightarrow>
                           call Drm_crtc_vblank_put (call (Drm_crtc_send_vblank_event e) tpg))
            in (IRQ_HANDLED, tpg)))"

subsection \<open>DRM plane\<close>

definition xlnx_tpg_plane_atomic_update :: "xlnx_tpg \<Rightarrow> xlnx_tpg" where
  "xlnx_tpg_plane_atomic_update tpg =
     (let tpg = call Drm_crtc_vblank_on tpg
      in case state_event (crtc_state tpg) of
           None \<Rightarrow> tpg
         | Some e \<Rightarrow>
             (let e = e\<lparr>pipe := crtc_index tpg\<rparr>;
                  tpg = call Drm_crtc_vblank_get tpg;
                  tpg = tpg\<lparr>drm_event := Some e\<rparr>
              in tpg\<lparr>crtc_state := (crtc_state tpg)\<lparr>state_event := None\<rparr>\<rparr>))"

subsection \<open>DRM CRTC\<close>

text \<open>
  \<^verbatim>\<open>struct drm_atomic_state\<close> as far as \<^verbatim>\<open>xlnx_tpg_crtc_check\<close> sees it: the new
  state of the CRTC and whether the CRTC's planes have been added to the commit.
\<close>

record drm_atomic_state =
  new_crtc_state :: drm_crtc_state
  affected_planes_added :: bool

text \<open>
  The first two arguments are what the DRM helpers
  \<^verbatim>\<open>drm_atomic_helper_check_crtc_primary_plane\<close> and
  \<^verbatim>\<open>drm_atomic_add_affected_planes\<close> return for this commit.
\<close>

definition xlnx_tpg_crtc_check ::
  "int \<Rightarrow> int \<Rightarrow> xlnx_tpg \<Rightarrow> drm_atomic_state \<Rightarrow> int \<times> xlnx_tpg \<times> drm_atomic_state" where
  "xlnx_tpg_crtc_check check_primary_plane add_affected_planes tpg state =
     (let crtc_state = new_crtc_state state;
          out = (add_affected_planes, tpg, state\<lparr>affected_planes_added := True\<rparr>)
      in if \<not> state_enable crtc_state then out
         else
           (let ret = check_primary_plane
            in if ret \<noteq> 0 then (ret, tpg, state)
               else if output_bus_format tpg \<noteq> state_output_bus_format crtc_state
               then (- EINVAL, tpg, state)
               else out))"

text \<open>
  The first argument stands for \<^verbatim>\<open>drm_display_mode_to_videomode\<close> of the DRM core.
  The results of the two timing controller calls are dropped, as in the source.
\<close>

definition xlnx_tpg_crtc_enable ::
  "(drm_display_mode \<Rightarrow> videomode) \<Rightarrow> vtc_mem \<Rightarrow> xlnx_tpg \<Rightarrow> xlnx_tpg" where
  "xlnx_tpg_crtc_enable to_videomode mem tpg =
     (let mode = adjusted_mode (crtc_state tpg);
          tpg = (if vtc tpg \<noteq> NULL
                 then (let vm = to_videomode mode;
                           cs = snd (xlnx_vtc_iface_set_timing mem (vtc tpg) vm (calls tpg));
                           cs = snd (xlnx_vtc_iface_enable mem (vtc tpg) cs)
                       in tpg\<lparr>calls := cs\<rparr>)
                 else tpg);
          tpg = xlnx_tpg_set_dimensions tpg (hdisplay mode) (vdisplay mode);
          tpg = xlnx_tpg_set_format tpg (color_format tpg)
      in xlnx_tpg_start tpg)"

definition xlnx_tpg_crtc_disable :: "vtc_mem \<Rightarrow> xlnx_tpg \<Rightarrow> xlnx_tpg" where
  "xlnx_tpg_crtc_disable mem tpg =
     (let tpg = (if vtc tpg \<noteq> NULL
                 then tpg\<lparr>calls := xlnx_vtc_iface_disable mem (vtc tpg) (calls tpg)\<rparr>
                 else tpg);
          tpg = (case state_event (crtc_state tpg) of
                   None \<Rightarrow> tpg
                 | Some e \<Rightarrow>
                     (let tpg = call (Complete_all (base_completion e)) tpg
                      in tpg\<lparr>crtc_state := (crtc_state tpg)\<lparr>state_event := None\<rparr>\<rparr>))
      in call Drm_crtc_vblank_off tpg)"

function select_output_bus_format_loop :: "u32 \<Rightarrow> u32 list \<Rightarrow> nat \<Rightarrow> u32" where
  "select_output_bus_format_loop fmt in_bus_fmts i =
     (if i < length in_bus_fmts
      then (if in_bus_fmts ! i = fmt then fmt
            else select_output_bus_format_loop fmt in_bus_fmts (Suc i))
      else 0)"
  by pat_completeness auto
termination
  by (relation "measure (\<lambda>(fmt, in_bus_fmts, i). length in_bus_fmts - i)") auto

declare select_output_bus_format_loop.simps [simp del]

text \<open>
  The array \<^verbatim>\<open>in_bus_fmts\<close> of \<^verbatim>\<open>num_in_bus_fmts\<close> elements is the list of its
  elements.
\<close>

definition xlnx_tpg_crtc_select_output_bus_format :: "xlnx_tpg \<Rightarrow> u32 list \<Rightarrow> u32" where
  "xlnx_tpg_crtc_select_output_bus_format tpg in_bus_fmts =
     select_output_bus_format_loop (output_bus_format tpg) in_bus_fmts 0"

definition xlnx_tpg_crtc_enable_vblank :: "xlnx_tpg \<Rightarrow> int \<times> xlnx_tpg" where
  "xlnx_tpg_crtc_enable_vblank tpg = (0, xlnx_tpg_enable_irq tpg)"

definition xlnx_tpg_crtc_disable_vblank :: "xlnx_tpg \<Rightarrow> xlnx_tpg" where
  "xlnx_tpg_crtc_disable_vblank tpg = xlnx_tpg_disable_irq tpg"

subsection \<open>Setup and probe\<close>

text \<open>
  What the platform gives \<^verbatim>\<open>xlnx_tpg_probe\<close>: the properties of the device tree
  node, the initial content of the register space, and the results of the
  calls into the kernel and the DRM core, each named after the call.  A call
  that returns a pointer is \<open>Some e\<close> (or \<open>Inl e\<close>) where the kernel returns
  \<^verbatim>\<open>ERR_PTR(e)\<close>.
\<close>

record probe_env =
  devm_kzalloc_ok :: bool
  devm_drm_of_get_bridge :: "int + ptr"
  of_bus_format :: "u32 option"
  of_xlnx_bridge :: ptr
  hw_regs :: "nat \<Rightarrow> u32"
  devm_drm_dev_alloc :: "int option"
  drm_mode_config_init :: int
  drm_vblank_init :: int
  of_address_to_resource :: int
  devm_ioremap_resource :: "int option"
  irq_of_parse_and_map :: nat
  devm_request_irq :: int
  drm_universal_plane_init :: int
  drm_crtc_init_with_planes :: int
  drm_simple_encoder_init :: int
  drm_bridge_attach :: int
  drm_bridge_connector_init :: "int option"
  drm_connector_attach_encoder :: int
  drm_dev_register :: int

definition xlnx_tpg_setup_irq :: "probe_env \<Rightarrow> xlnx_tpg \<Rightarrow> int \<times> xlnx_tpg" where
  "xlnx_tpg_setup_irq env tpg =
     (let tpg = tpg\<lparr>irq := irq_of_parse_and_map env\<rparr>
      in if irq tpg = 0 then (- EINVAL, tpg)
         else
           (let ret = devm_request_irq env
            in if ret < 0 then (ret, tpg)
               else (0, xlnx_tpg_enable_irq tpg)))"

definition xlnx_tpg_map_resources :: "probe_env \<Rightarrow> xlnx_tpg \<Rightarrow> int \<times> xlnx_tpg" where
  "xlnx_tpg_map_resources env tpg =
     (let ret = of_address_to_resource env
      in if ret < 0 then (ret, tpg)
         else (case devm_ioremap_resource env of
                 Some e \<Rightarrow> (e, tpg)
               | None \<Rightarrow> (0, tpg\<lparr>regs := hw_regs env\<rparr>)))"

definition xlnx_tpg_create_properties :: "xlnx_tpg \<Rightarrow> xlnx_tpg" where
  "xlnx_tpg_create_properties tpg = xlnx_tpg_set_pattern tpg XTPG_PAT_COLOR_BARS"

definition xlnx_tpg_pipeline_init :: "probe_env \<Rightarrow> xlnx_tpg \<Rightarrow> int \<times> xlnx_tpg" where
  "xlnx_tpg_pipeline_init env tpg =
     (case xlnx_tpg_map_resources env tpg of (ret, tpg) \<Rightarrow>
      if ret < 0 then (ret, tpg)
      else (case xlnx_tpg_setup_irq env tpg of (ret, tpg) \<Rightarrow>
      if ret < 0 then (ret, tpg)
      else if drm_universal_plane_init env \<noteq> 0 then (drm_universal_plane_init env, tpg)
      else if drm_crtc_init_with_planes env \<noteq> 0 then (drm_crtc_init_with_planes env, tpg)
      else if drm_simple_encoder_init env \<noteq> 0 then (drm_simple_encoder_init env, tpg)
      else if drm_bridge_attach env < 0 then (drm_bridge_attach env, tpg)
      else (case drm_bridge_connector_init env of
              Some e \<Rightarrow> (e, tpg)
            | None \<Rightarrow>
                if drm_connector_attach_encoder env < 0
                then (drm_connector_attach_encoder env, tpg)
                else (0, xlnx_tpg_create_properties tpg))))"

text \<open>
  \<^verbatim>\<open>xlnx_tpg_drm_init\<close> returns \<^verbatim>\<open>ret\<close> on its last two paths alike, after
  \<^verbatim>\<open>drm_kms_helper_poll_fini\<close> on the failing one.
\<close>

definition xlnx_tpg_drm_init :: "probe_env \<Rightarrow> xlnx_tpg \<Rightarrow> int \<times> xlnx_tpg" where
  "xlnx_tpg_drm_init env tpg =
     (case devm_drm_dev_alloc env of
        Some e \<Rightarrow> (e, tpg)
      | None \<Rightarrow>
          if drm_mode_config_init env < 0 then (drm_mode_config_init env, tpg)
          else if drm_vblank_init env < 0 then (drm_vblank_init env, tpg)
          else (case xlnx_tpg_pipeline_init env tpg of (ret, tpg) \<Rightarrow>
                if ret < 0 then (ret, tpg)
                else (drm_dev_register env, tpg)))"

text \<open>The object \<^verbatim>\<open>devm_kzalloc\<close> returns: every field zero.\<close>

definition zeroed_mode :: drm_display_mode where
  "zeroed_mode =
     \<lparr>clock = 0, hdisplay = 0, hsync_start = 0, hsync_end = 0, htotal = 0,
      vdisplay = 0, vsync_start = 0, vsync_end = 0, vtotal = 0\<rparr>"

definition zeroed_tpg :: xlnx_tpg where
  "zeroed_tpg =
     \<lparr>vtc = NULL, disp_bridge = Inr NULL, regs = (\<lambda>_. 0), irq = 0, output_bus_format = 0,
      color_format = XTPG_FMT_RGB, drm_event = None,
      crtc_state = \<lparr>state_enable = False, state_output_bus_format = 0,
                     state_event = None, adjusted_mode = zeroed_mode\<rparr>,
      crtc_index = 0, calls = []\<rparr>"

text \<open>
  \<^verbatim>\<open>xlnx_tpg_probe\<close> returns its code and the driver data it has built (none
  when the allocation failed); it does not return when the lookup of the timing
  controller does not.
\<close>

definition xlnx_tpg_probe ::
  "probe_env \<Rightarrow> vtc_mem \<Rightarrow> xlnx_vtc_list \<Rightarrow> (int \<times> xlnx_tpg option) option" where
  "xlnx_tpg_probe env mem vtc_list =
     (if \<not> devm_kzalloc_ok env then Some (- ENOMEM, None)
      else
        (let tpg = zeroed_tpg;
             tpg = tpg\<lparr>disp_bridge := devm_drm_of_get_bridge env\<rparr>
         in case disp_bridge tpg of
              Inl ret \<Rightarrow> Some (ret, Some tpg)
            | Inr bridge \<Rightarrow>
                (case of_bus_format env of
                   None \<Rightarrow> Some (- EINVAL, Some tpg)
                 | Some fmt \<Rightarrow>
                     (let tpg = tpg\<lparr>output_bus_format := fmt\<rparr>;
                          tpg = tpg\<lparr>color_format :=
                                  xlnx_tpg_bus_to_color_format (output_bus_format tpg)\<rparr>;
                          vtc_node = of_xlnx_bridge env
                      in if vtc_node = NULL then Some (- EINVAL, Some tpg)
                         else
                           (case xlnx_of_find_vtc mem vtc_node (vtc tpg) vtc_list of
                              None \<Rightarrow> None
                            | Some (ret, v) \<Rightarrow>
                                (let tpg = tpg\<lparr>vtc := v\<rparr>
                                 in if ret < 0 then Some (ret, Some tpg)
                                    else
                                      (case xlnx_tpg_drm_init env tpg of
                                         (ret, tpg) \<Rightarrow>
                                           if ret < 0 then Some (ret, Some tpg)
                                           else Some (0, Some tpg))))))))"

section \<open>Sequences of registry operations\<close>

datatype vtc_op = Register ptr | Unregister ptr

fun vtc_op_handle :: "vtc_op \<Rightarrow> ptr" where
  "vtc_op_handle (Register h) = h"
| "vtc_op_handle (Unregister h) = h"

fun run_vtc_op :: "vtc_op \<Rightarrow> vtc_heap \<Rightarrow> vtc_heap option" where
  "run_vtc_op (Register h) (mem, vtc_list) = map_option snd (xlnx_vtc_register mem h vtc_list)"
| "run_vtc_op (Unregister h) (mem, vtc_list) = xlnx_vtc_unregister mem h vtc_list"

fun run_vtc_ops :: "vtc_op list \<Rightarrow> vtc_heap \<Rightarrow> vtc_heap option" where
  "run_vtc_ops [] h = Some h"
| "run_vtc_ops (op # ops) h = do { h \<leftarrow> run_vtc_op op h; run_vtc_ops ops h }"

text \<open>A lookup after a sequence of operations; \<open>None\<close> when one of them does not return.\<close>

definition find_vtc_after ::
  "vtc_op list \<Rightarrow> vtc_mem \<Rightarrow> xlnx_vtc_list \<Rightarrow> ptr \<Rightarrow> ptr \<Rightarrow> (int \<times> ptr) option" where
  "find_vtc_after ops mem vtc_list np vtc_in =
     (case run_vtc_ops ops (mem, vtc_list) of
        None \<Rightarrow> None
      | Some (mem', vtc_list') \<Rightarrow> xlnx_of_find_vtc mem' np vtc_in vtc_list')"

text \<open>
  The specification's reading of such a sequence, independent of the list: a
  handle is currently registered when it has been registered (which takes a
  handle and an identifier that are present) and not unregistered since.
\<close>

fun spec_registered :: "vtc_mem \<Rightarrow> vtc_op list \<Rightarrow> ptr set \<Rightarrow> ptr set" where
  "spec_registered mem [] regd = regd"
| "spec_registered mem (Register h # ops) regd =
     spec_registered mem ops
       (if h \<noteq> NULL \<and> of_node (mem h) \<noteq> NULL then insert h regd else regd)"
| "spec_registered mem (Unregister h # ops) regd = spec_registered mem ops (regd - {h})"

text \<open>
  The sequences that use the list as the kernel's list functions expect: no
  handle is registered while it is registered, and none but \<open>NULL\<close> is
  unregistered unless it is registered.
\<close>

fun proper_ops :: "vtc_mem \<Rightarrow> vtc_op list \<Rightarrow> ptr set \<Rightarrow> bool" where
  "proper_ops mem [] regd = True"
| "proper_ops mem (Register h # ops) regd =
     (h \<notin> regd \<and>
      proper_ops mem ops
        (if h \<noteq> NULL \<and> of_node (mem h) \<noteq> NULL then insert h regd else regd))"
| "proper_ops mem (Unregister h # ops) regd =
     ((h = NULL \<or> h \<in> regd) \<and> proper_ops mem ops (regd - {h}))"

section \<open>The list as the sequence of its entries\<close>

text \<open>
  The \<^verbatim>\<open>next\<close> and \<^verbatim>\<open>prev\<close> pointers read as functions on list pointers, the
  pointers that can be followed, and what the list functions never change.
\<close>

definition nextf :: "vtc_heap \<Rightarrow> list_ptr \<Rightarrow> list_ptr" where
  "nextf h p = (case list_head_at h p of None \<Rightarrow> Lnull | Some lh \<Rightarrow> next lh)"

definition prevf :: "vtc_heap \<Rightarrow> list_ptr \<Rightarrow> list_ptr" where
  "prevf h p = (case list_head_at h p of None \<Rightarrow> Lnull | Some lh \<Rightarrow> prev lh)"

fun deref_ok :: "list_ptr \<Rightarrow> bool" where
  "deref_ok Lhead = True"
| "deref_ok (Lentry p) = (p \<noteq> NULL)"
| "deref_ok Lnull = False"
| "deref_ok Lpoison1 = False"
| "deref_ok Lpoison2 = False"

definition same_payload :: "vtc_heap \<Rightarrow> vtc_heap \<Rightarrow> bool" where
  "same_payload h h' \<longleftrightarrow>
     initialized (snd h') = initialized (snd h) \<and> (\<forall>q. of_node (fst h' q) = of_node (fst h q))"

text \<open>
  \<open>path f a xs z\<close>: starting at \<open>a\<close> and following \<open>f\<close> one visits exactly \<open>xs\<close> and
  arrives at \<open>z\<close>.  The list is intact and holds the interface objects \<open>xs\<close>, in
  this order, when the \<^verbatim>\<open>next\<close> pointers lead from the head through \<open>xs\<close> back to
  the head and the \<^verbatim>\<open>prev\<close> pointers lead back the other way.
\<close>

fun path :: "(list_ptr \<Rightarrow> list_ptr) \<Rightarrow> list_ptr \<Rightarrow> list_ptr list \<Rightarrow> list_ptr \<Rightarrow> bool" where
  "path f a [] z = (a = z)"
| "path f a (x # xs) z = (a = x \<and> path f (f x) xs z)"

definition linked :: "vtc_mem \<Rightarrow> xlnx_vtc_list \<Rightarrow> ptr list \<Rightarrow> bool" where
  "linked mem vtc_list xs \<longleftrightarrow>
     distinct xs \<and> NULL \<notin> set xs \<and>
     path (nextf (mem, vtc_list)) Lhead (Lhead # map Lentry xs) Lhead \<and>
     path (prevf (mem, vtc_list)) Lhead (Lhead # rev (map Lentry xs)) Lhead"

text \<open>What the loop of \<open>xlnx_of_find_vtc\<close> computes on an intact list holding \<open>xs\<close>.\<close>

fun scan_entries :: "vtc_mem \<Rightarrow> ptr \<Rightarrow> ptr list \<Rightarrow> int \<Rightarrow> ptr \<Rightarrow> int \<times> ptr" where
  "scan_entries mem np [] ret v = (ret, v)"
| "scan_entries mem np (vtc_pos # rest) ret v =
     (if of_node (mem vtc_pos) = np then (0, vtc_pos)
      else scan_entries mem np rest ret v)"

text \<open>
  The memory \<open>h\<close> holds an initialized, intact list of exactly the handles
  \<open>regd\<close>, and the device nodes are those of \<open>mem0\<close>.
\<close>

definition tracks :: "vtc_mem \<Rightarrow> vtc_heap \<Rightarrow> ptr set \<Rightarrow> bool" where
  "tracks mem0 h regd \<longleftrightarrow>
     initialized (snd h) \<and> (\<forall>q. of_node (fst h q) = of_node (mem0 q)) \<and>
     (\<exists>xs. linked (fst h) (snd h) xs \<and> set xs = regd)"

section \<open>Interleavings of the interrupt handler and of disabling\<close>

text \<open>
  The interrupt handler and \<^verbatim>\<open>xlnx_tpg_crtc_disable\<close> statement by statement, to
  run them against each other.  A label names the statement a thread executes
  next; \<open>I_read\<close> and \<open>D_vtc\<close> are the first statements, where a thread is
  between two invocations.  \<open>irq_status\<close> and \<open>irq_event\<close> are the handler's
  local variables, \<open>event_lock\<close> says whether \<^verbatim>\<open>crtc->dev->event_lock\<close> is held.
\<close>

datatype irq_label =
  I_read | I_ack | I_test | I_vblank | I_lock | I_load | I_clear | I_send | I_put | I_unlock

datatype disable_label = D_vtc | D_event | D_clear | D_vblank_off

record sys =
  sys_tpg :: xlnx_tpg
  event_lock :: bool
  irq_at :: irq_label
  irq_status :: u32
  irq_event :: "drm_pending_vblank_event option"
  disable_at :: disable_label

definition irq_step :: "sys \<Rightarrow> sys" where
  "irq_step s =
     (case irq_at s of
        I_read \<Rightarrow>
          s\<lparr>irq_status := xlnx_tpg_read (sys_tpg s) XLNX_TPG_IP_IRQ_STATUS, irq_at := I_ack\<rparr>
      | I_ack \<Rightarrow>
          s\<lparr>sys_tpg := xlnx_tpg_write (sys_tpg s) XLNX_TPG_IP_IRQ_STATUS (irq_status s),
            irq_at := I_test\<rparr>
      | I_test \<Rightarrow>
          (let status = irq_status s AND XLNX_TPG_IP_IRQ_AP_DONE
           in if status = 0 then s\<lparr>irq_status := status, irq_at := I_read\<rparr>
              else s\<lparr>irq_status := status, irq_at := I_vblank\<rparr>)
      | I_vblank \<Rightarrow>
          s\<lparr>sys_tpg := call Drm_crtc_handle_vblank (sys_tpg s), irq_at := I_lock\<rparr>
      | I_lock \<Rightarrow>
          (if event_lock s then s else s\<lparr>event_lock := True, irq_at := I_load\<rparr>)
      | I_load \<Rightarrow>
          s\<lparr>irq_event := drm_event (sys_tpg s), irq_at := I_clear\<rparr>
      | I_clear \<Rightarrow>
          s\<lparr>sys_tpg := (sys_tpg s)\<lparr>drm_event := None\<rparr>, irq_at := I_send\<rparr>
      | I_send \<Rightarrow>
          (case irq_event s of
             None \<Rightarrow> s\<lparr>irq_at := I_unlock\<rparr>
           | Some e \<Rightarrow>
               s\<lparr>sys_tpg := call (Drm_crtc_send_vblank_event e) (sys_tpg s), irq_at := I_put\<rparr>)
      | I_put \<Rightarrow>
          s\<lparr>sys_tpg := call Drm_crtc_vblank_put (sys_tpg s), irq_at := I_unlock\<rparr>
      | I_unlock \<Rightarrow>
          s\<lparr>event_lock := False, irq_at := I_read\<rparr>)"

definition disable_step :: "vtc_mem \<Rightarrow> sys \<Rightarrow> sys" where
  "disable_step mem s =
     (let tpg = sys_tpg s
      in case disable_at s of
           D_vtc \<Rightarrow>
             s\<lparr>sys_tpg :=
                 (if vtc tpg \<noteq> NULL
                  then tpg\<lparr>calls := xlnx_vtc_iface_disable mem (vtc tpg) (calls tpg)\<rparr>
                  else tpg),
               disable_at := D_event\<rparr>
         | D_event \<Rightarrow>
             (case state_event (crtc_state tpg) of
                None \<Rightarrow> s\<lparr>disable_at := D_vblank_off\<rparr>
              | Some e \<Rightarrow>
                  s\<lparr>sys_tpg := call (Complete_all (base_completion e)) tpg,
                    disable_at := D_clear\<rparr>)
         | D_clear \<Rightarrow>
             s\<lparr>sys_tpg := tpg\<lparr>crtc_state := (crtc_state tpg)\<lparr>state_event := None\<rparr>\<rparr>,
               disable_at := D_vblank_off\<rparr>
         | D_vblank_off \<Rightarrow>
             s\<lparr>sys_tpg := call Drm_crtc_vblank_off tpg, disable_at := D_vtc\<rparr>)"

text \<open>
  One step of the whole: a statement of the interrupt handler, a statement of
  disabling, or the generator latching a value in its interrupt status register.
\<close>

datatype action = Irq_step | Disable_step | Hw_irq_status u32

fun step :: "vtc_mem \<Rightarrow> action \<Rightarrow> sys \<Rightarrow> sys" where
  "step mem Irq_step s = irq_step s"
| "step mem Disable_step s = disable_step mem s"
| "step mem (Hw_irq_status v) s =
     s\<lparr>sys_tpg := (sys_tpg s)\<lparr>regs := (regs (sys_tpg s))(XLNX_TPG_IP_IRQ_STATUS := v)\<rparr>\<rparr>"

fun run :: "vtc_mem \<Rightarrow> action list \<Rightarrow> sys \<Rightarrow> sys" where
  "run mem [] s = s"
| "run mem (a # as) s = run mem as (step mem a s)"

section \<open>Example inputs\<close>

text \<open>
  An example memory: the interface object at address \<open>p\<close> belongs to the device
  node at \<open>100 + p\<close>, implements all three callbacks and has a zeroed list entry.
\<close>

definition example_mem :: vtc_mem where
  "example_mem p =
     \<lparr>list_entry = \<lparr>next = Lnull, prev = Lnull\<rparr>, of_node = 100 + p,
      enable = Some 0, disable = Some (), set_timing = Some 0\<rparr>"

text \<open>The same memory with the handles 1, 2 and 3 linked into the list, in this order.\<close>

definition example_mem_123 :: vtc_mem where
  "example_mem_123 =
     example_mem
       (1 := (example_mem 1)\<lparr>list_entry := \<lparr>next = Lentry 2, prev = Lhead\<rparr>\<rparr>,
        2 := (example_mem 2)\<lparr>list_entry := \<lparr>next = Lentry 3, prev = Lentry 1\<rparr>\<rparr>,
        3 := (example_mem 3)\<lparr>list_entry := \<lparr>next = Lhead, prev = Lentry 2\<rparr>\<rparr>)"

definition example_list_123 :: xlnx_vtc_list where
  "example_list_123 = \<lparr>head = \<lparr>next = Lentry 1, prev = Lentry 3\<rparr>, initialized = True\<rparr>"

text \<open>A sequence of registry operations that leaves the handles 2 and 3 registered.\<close>

definition example_ops :: "vtc_op list" where
  "example_ops = [Register 1, Register 2, Unregister 1, Register 3]"

text \<open>The 1080p mode, and a conversion to \<^verbatim>\<open>struct videomode\<close> after the DRM core's.\<close>

definition example_mode :: drm_display_mode where
  "example_mode =
     \<lparr>clock = 148500, hdisplay = 1920, hsync_start = 2008, hsync_end = 2052, htotal = 2200,
      vdisplay = 1080, vsync_start = 1084, vsync_end = 1089, vtotal = 1125\<rparr>"

definition example_to_videomode :: "drm_display_mode \<Rightarrow> videomode" where
  "example_to_videomode m =
     \<lparr>pixelclock = clock m * 1000,
      hactive = ucast (hdisplay m),
      hfront_porch = ucast (hsync_start m - hdisplay m),
      hback_porch = ucast (htotal m - hsync_end m),
      hsync_len = ucast (hsync_end m - hsync_start m),
      vactive = ucast (vdisplay m),
      vfront_porch = ucast (vsync_start m - vdisplay m),
      vback_porch = ucast (vtotal m - vsync_end m),
      vsync_len = ucast (vsync_end m - vsync_start m)\<rparr>"

definition example_tpg :: xlnx_tpg where
  "example_tpg =
     \<lparr>vtc = 1, disp_bridge = Inr 40, regs = (\<lambda>_. 0), irq = 5,
      output_bus_format = MEDIA_BUS_FMT_UYVY8_1X16, color_format = XTPG_FMT_YUV_422,
      drm_event = None,
      crtc_state = \<lparr>state_enable = True, state_output_bus_format = MEDIA_BUS_FMT_UYVY8_1X16,
                     state_event = None, adjusted_mode = example_mode\<rparr>,
      crtc_index = 0, calls = []\<rparr>"

text \<open>A commit that enables the CRTC with the given output bus format.\<close>

definition example_commit :: "u32 \<Rightarrow> drm_atomic_state" where
  "example_commit fmt =
     \<lparr>new_crtc_state = \<lparr>state_enable = True, state_output_bus_format = fmt,
                          state_event = None, adjusted_mode = example_mode\<rparr>,
      affected_planes_added = False\<rparr>"

text \<open>
  A completion event, the generator after a commit carrying that event has
  been swapped in, and after \<open>xlnx_tpg_plane_atomic_update\<close> has armed it.
\<close>

definition example_event :: drm_pending_vblank_event where
  "example_event = \<lparr>base_completion = 50, pipe = 0\<rparr>"

definition example_flip_tpg :: xlnx_tpg where
  "example_flip_tpg =
     example_tpg\<lparr>crtc_state := (crtc_state example_tpg)\<lparr>state_event := Some example_event\<rparr>\<rparr>"

definition example_armed_tpg :: xlnx_tpg where
  "example_armed_tpg = xlnx_tpg_plane_atomic_update example_flip_tpg"

text \<open>
  A platform on which every call succeeds, with the given \<^verbatim>\<open>bus-format\<close>
  property and the device node of handle 1 as timing controller, and the driver data
  \<open>xlnx_tpg_probe\<close> builds there.
\<close>

definition example_env :: "u32 \<Rightarrow> probe_env" where
  "example_env fmt =
     \<lparr>devm_kzalloc_ok = True, devm_drm_of_get_bridge = Inr 40, of_bus_format = Some fmt,
      of_xlnx_bridge = 101, hw_regs = (\<lambda>_. 0), devm_drm_dev_alloc = None,
      drm_mode_config_init = 0, drm_vblank_init = 0, of_address_to_resource = 0,
      devm_ioremap_resource = None, irq_of_parse_and_map = 5, devm_request_irq = 0,
      drm_universal_plane_init = 0, drm_crtc_init_with_planes = 0,
      drm_simple_encoder_init = 0, drm_bridge_attach = 0, drm_bridge_connector_init = None,
      drm_connector_attach_encoder = 0, drm_dev_register = 0\<rparr>"

definition example_probed_tpg :: "u32 \<Rightarrow> xlnx_tpg_format \<Rightarrow> xlnx_tpg" where
  "example_probed_tpg fmt color =
     zeroed_tpg\<lparr>vtc := 1, disp_bridge := Inr 40,
       regs := (\<lambda>_. 0)(XLNX_TPG_GLOBAL_IRQ_EN := 1, XLNX_TPG_IP_IRQ_EN := 1,
                       XLNX_TPG_PATTERN_ID := XTPG_PAT_COLOR_BARS),
       irq := 5, output_bus_format := fmt, color_format := color,
       calls := [Writel XLNX_TPG_GLOBAL_IRQ_EN 1, Writel XLNX_TPG_IP_IRQ_EN 1,
                 Writel XLNX_TPG_PATTERN_ID XTPG_PAT_COLOR_BARS]\<rparr>"

text \<open>
  The armed generator with the frame-done interrupt latched, no handler and no
  disabling under way; and an interleaving of handler runs with one disabling.
\<close>

definition example_sys :: sys where
  "example_sys =
     \<lparr>sys_tpg = example_armed_tpg\<lparr>regs := (\<lambda>_. 0)(XLNX_TPG_IP_IRQ_STATUS := 1)\<rparr>,
      event_lock = False, irq_at = I_read, irq_status = 0, irq_event = None,
      disable_at = D_vtc\<rparr>"

definition example_acts :: "action list" where
  "example_acts =
     [Irq_step, Irq_step, Disable_step, Irq_step, Irq_step, Irq_step, Irq_step, Disable_step,
      Irq_step, Disable_step, Irq_step, Irq_step, Disable_step, Irq_step, Irq_step,
      Hw_irq_status 1, Irq_step, Irq_step, Irq_step, Irq_step, Irq_step, Irq_step, Irq_step,
      Irq_step, Irq_step, Irq_step]"

section \<open>Counting deliveries\<close>

text \<open>
  How often an event has been handed to \<^verbatim>\<open>drm_crtc_send_vblank_event\<close>, and how
  often a completion has been completed, so far.
\<close>

definition sends :: "drm_pending_vblank_event \<Rightarrow> sys \<Rightarrow> nat" where
  "sends e s = count_list (calls (sys_tpg s)) (Drm_crtc_send_vblank_event e)"

text \<open>
  The sends of an event so far plus the one still possible: the event is in the
  slot, or in the handler's local variable once the slot has been cleared.
\<close>

definition send_budget :: "drm_pending_vblank_event \<Rightarrow> sys \<Rightarrow> nat" where
  "send_budget e s =
     sends e s +
     (if irq_at s = I_send then (if irq_event s = Some e then 1 else 0)
      else (if drm_event (sys_tpg s) = Some e then 1 else 0))"

text \<open>What the handler's position says about the slot and its local variable.\<close>

definition irq_inv :: "sys \<Rightarrow> bool" where
  "irq_inv s \<longleftrightarrow>
     (irq_at s = I_send \<longrightarrow> drm_event (sys_tpg s) = None) \<and>
     (irq_at s = I_put \<longrightarrow> drm_event (sys_tpg s) = None) \<and>
     (irq_at s = I_clear \<longrightarrow> irq_event s = drm_event (sys_tpg s))"

definition completes :: "ptr \<Rightarrow> sys \<Rightarrow> nat" where
  "completes c s = count_list (calls (sys_tpg s)) (Complete_all c)"

definition complete_budget :: "ptr \<Rightarrow> sys \<Rightarrow> nat" where
  "complete_budget c s =
     completes c s +
     (case state_event (crtc_state (sys_tpg s)) of
        None \<Rightarrow> 0
      | Some e \<Rightarrow> if base_completion e = c \<and> disable_at s \<noteq> D_clear then 1 else 0)"

section \<open>Properties\<close>

subsection \<open>Bus format to colour format\<close>

lemma bus_to_color_format_loop_map_of:
  "bus_to_color_format_loop bus_format i =
     (case map_of (drop i format_map) bus_format of
        None \<Rightarrow> XTPG_FMT_INVALID
      | Some c \<Rightarrow> c)"
proof (induction bus_format i rule: bus_to_color_format_loop.induct)
  case (1 bus_format i)
  show ?case
  proof (cases "i < length format_map")
    case True
    then have d: "drop i format_map = format_map ! i # drop (Suc i) format_map"
      by (simp add: Cons_nth_drop_Suc)
    show ?thesis
      using True 1 by (subst bus_to_color_format_loop.simps) (simp add: d split: prod.splits)
  next
    case False
    then show ?thesis
      by (subst bus_to_color_format_loop.simps) simp
  qed
qed

lemmas media_bus_fmt_defs =
  MEDIA_BUS_FMT_RGB666_1X18_def MEDIA_BUS_FMT_RBG888_1X24_def MEDIA_BUS_FMT_UYVY8_1X16_def
  MEDIA_BUS_FMT_VUY8_1X24_def MEDIA_BUS_FMT_UYVY10_1X20_def

text \<open>
  Claim C5.  \<open>xlnx_tpg_bus_to_color_format\<close> is a total function of the bus
  format alone: RGB666\_1X18 and RBG888\_1X24 map to RGB, UYVY8\_1X16 and
  UYVY10\_1X20 to YUV 4:2:2, VUY8\_1X24 to YUV 4:4:4, and every other value maps
  to \<open>XTPG_FMT_INVALID\<close>.
\<close>

theorem bus_to_color_format_table:
  "xlnx_tpg_bus_to_color_format MEDIA_BUS_FMT_RGB666_1X18 = XTPG_FMT_RGB \<and>
   xlnx_tpg_bus_to_color_format MEDIA_BUS_FMT_RBG888_1X24 = XTPG_FMT_RGB \<and>
   xlnx_tpg_bus_to_color_format MEDIA_BUS_FMT_UYVY8_1X16 = XTPG_FMT_YUV_422 \<and>
   xlnx_tpg_bus_to_color_format MEDIA_BUS_FMT_VUY8_1X24 = XTPG_FMT_YUV_444 \<and>
   xlnx_tpg_bus_to_color_format MEDIA_BUS_FMT_UYVY10_1X20 = XTPG_FMT_YUV_422 \<and>
   (\<forall>bus_format.
      bus_format \<notin> {MEDIA_BUS_FMT_RGB666_1X18, MEDIA_BUS_FMT_RBG888_1X24,
        MEDIA_BUS_FMT_UYVY8_1X16, MEDIA_BUS_FMT_VUY8_1X24, MEDIA_BUS_FMT_UYVY10_1X20} \<longrightarrow>
      xlnx_tpg_bus_to_color_format bus_format = XTPG_FMT_INVALID)"
  by (simp add: xlnx_tpg_bus_to_color_format_def bus_to_color_format_loop_map_of format_map_def
      media_bus_fmt_defs)

theorem bus_to_color_format_table_witness:
  "(0x100a :: u32) \<notin> {MEDIA_BUS_FMT_RGB666_1X18, MEDIA_BUS_FMT_RBG888_1X24,
        MEDIA_BUS_FMT_UYVY8_1X16, MEDIA_BUS_FMT_VUY8_1X24, MEDIA_BUS_FMT_UYVY10_1X20} \<and>
   xlnx_tpg_bus_to_color_format 0x100a = XTPG_FMT_INVALID"
  using bus_to_color_format_table by (simp add: media_bus_fmt_defs)

subsection \<open>Selecting the output bus format\<close>

lemma select_output_bus_format_loop_eq:
  "select_output_bus_format_loop fmt in_bus_fmts i =
     (if fmt \<in> set (drop i in_bus_fmts) then fmt else 0)"
proof (induction fmt in_bus_fmts i rule: select_output_bus_format_loop.induct)
  case (1 fmt in_bus_fmts i)
  show ?case
  proof (cases "i < length in_bus_fmts")
    case True
    then have d: "set (drop i in_bus_fmts) =
        insert (in_bus_fmts ! i) (set (drop (Suc i) in_bus_fmts))"
      by (simp flip: Cons_nth_drop_Suc)
    show ?thesis
    proof (cases "in_bus_fmts ! i = fmt")
      case eq: True
      with True d show ?thesis
        by (subst select_output_bus_format_loop.simps) simp
    next
      case neq: False
      with True 1 have "select_output_bus_format_loop fmt in_bus_fmts (Suc i) =
          (if fmt \<in> set (drop (Suc i) in_bus_fmts) then fmt else 0)"
        by blast
      with True neq d show ?thesis
        by (subst select_output_bus_format_loop.simps) auto
    qed
  next
    case False
    then show ?thesis
      by (subst select_output_bus_format_loop.simps) simp
  qed
qed

text \<open>
  Claim C9.  For every list of candidate bus formats,
  \<open>xlnx_tpg_crtc_select_output_bus_format\<close> returns the generator's output bus
  format when it occurs in the list and 0 when it does not; for the empty list
  it returns 0.
\<close>

theorem select_output_bus_format_correct:
  "xlnx_tpg_crtc_select_output_bus_format tpg in_bus_fmts =
     (if output_bus_format tpg \<in> set in_bus_fmts then output_bus_format tpg else 0) \<and>
   xlnx_tpg_crtc_select_output_bus_format tpg [] = 0"
  by (simp add: xlnx_tpg_crtc_select_output_bus_format_def select_output_bus_format_loop_eq)

subsection \<open>The list functions on an intact list\<close>

lemma same_payload_refl: "same_payload h h"
  by (simp add: same_payload_def)

lemma same_payload_trans: "same_payload h h1 \<Longrightarrow> same_payload h1 h2 \<Longrightarrow> same_payload h h2"
  by (simp add: same_payload_def)

lemma get_next_ok: "deref_ok p \<Longrightarrow> get_next h p = Some (nextf h p)"
  by (cases h; cases p) (simp_all add: get_next_def nextf_def)

lemma get_prev_ok: "deref_ok p \<Longrightarrow> get_prev h p = Some (prevf h p)"
  by (cases h; cases p) (simp_all add: get_prev_def prevf_def)

lemma set_next_ok:
  assumes "deref_ok p"
  shows "\<exists>h'. set_next p v h = Some h' \<and> nextf h' = (nextf h)(p := v) \<and>
           prevf h' = prevf h \<and> same_payload h h'"
proof (cases h)
  case (Pair mem l)
  from assms obtain h' where h': "set_next p v h = Some h'"
    unfolding Pair by (cases p) (auto simp: set_next_def)
  have "nextf h' q = ((nextf h)(p := v)) q" and "prevf h' q = prevf h q" for q
    using assms h' unfolding Pair
    by (cases p; cases q; auto simp: set_next_def nextf_def prevf_def split: if_splits)+
  moreover have "same_payload h h'"
    using assms h' unfolding Pair
    by (cases p) (auto simp: set_next_def same_payload_def split: if_splits)
  ultimately show ?thesis
    using h' by (auto simp: fun_eq_iff)
qed

lemma set_prev_ok:
  assumes "deref_ok p"
  shows "\<exists>h'. set_prev p v h = Some h' \<and> prevf h' = (prevf h)(p := v) \<and>
           nextf h' = nextf h \<and> same_payload h h'"
proof (cases h)
  case (Pair mem l)
  from assms obtain h' where h': "set_prev p v h = Some h'"
    unfolding Pair by (cases p) (auto simp: set_prev_def)
  have "prevf h' q = ((prevf h)(p := v)) q" and "nextf h' q = nextf h q" for q
    using assms h' unfolding Pair
    by (cases p; cases q; auto simp: set_prev_def nextf_def prevf_def split: if_splits)+
  moreover have "same_payload h h'"
    using assms h' unfolding Pair
    by (cases p) (auto simp: set_prev_def same_payload_def split: if_splits)
  ultimately show ?thesis
    using h' by (auto simp: fun_eq_iff)
qed

lemma list_add_tail_ok:
  assumes "v \<noteq> NULL" and "deref_ok (prevf h Lhead)"
  shows "\<exists>h'. list_add_tail (Lentry v) Lhead h = Some h' \<and>
           nextf h' = (nextf h)(Lentry v := Lhead, prevf h Lhead := Lentry v) \<and>
           prevf h' = (prevf h)(Lhead := Lentry v, Lentry v := prevf h Lhead) \<and>
           same_payload h h'"
proof -
  let ?p = "prevf h Lhead"
  have v: "deref_ok (Lentry v)" using assms by simp
  obtain h1 where h1: "set_prev Lhead (Lentry v) h = Some h1"
    "prevf h1 = (prevf h)(Lhead := Lentry v)" "nextf h1 = nextf h" "same_payload h h1"
    using set_prev_ok[of Lhead "Lentry v" h] by auto
  obtain h2 where h2: "set_next (Lentry v) Lhead h1 = Some h2"
    "nextf h2 = (nextf h1)(Lentry v := Lhead)" "prevf h2 = prevf h1" "same_payload h1 h2"
    using set_next_ok[OF v, of Lhead h1] by auto
  obtain h3 where h3: "set_prev (Lentry v) ?p h2 = Some h3"
    "prevf h3 = (prevf h2)(Lentry v := ?p)" "nextf h3 = nextf h2" "same_payload h2 h3"
    using set_prev_ok[OF v, of ?p h2] by auto
  obtain h4 where h4: "set_next ?p (Lentry v) h3 = Some h4"
    "nextf h4 = (nextf h3)(?p := Lentry v)" "prevf h4 = prevf h3" "same_payload h3 h4"
    using set_next_ok[OF assms(2), of "Lentry v" h3] by auto
  have "list_add_tail (Lentry v) Lhead h = Some h4"
    using h1(1) h2(1) h3(1) h4(1)
    by (simp add: list_add_tail_def list_add_between_def get_prev_ok)
  moreover have "same_payload h h4"
    using h1(4) h2(4) h3(4) h4(4) by (blast intro: same_payload_trans)
  ultimately show ?thesis
    using h1(2,3) h2(2,3) h3(2,3) h4(2,3) by simp
qed

lemma list_del_ok:
  assumes "v \<noteq> NULL" and "deref_ok (prevf h (Lentry v))" and "deref_ok (nextf h (Lentry v))"
  shows "\<exists>h'. list_del (Lentry v) h = Some h' \<and>
           nextf h' = (nextf h)(prevf h (Lentry v) := nextf h (Lentry v), Lentry v := Lpoison1) \<and>
           prevf h' = (prevf h)(nextf h (Lentry v) := prevf h (Lentry v), Lentry v := Lpoison2) \<and>
           same_payload h h'"
proof -
  let ?p = "prevf h (Lentry v)" and ?n = "nextf h (Lentry v)"
  have v: "deref_ok (Lentry v)" using assms by simp
  obtain h1 where h1: "set_prev ?n ?p h = Some h1"
    "prevf h1 = (prevf h)(?n := ?p)" "nextf h1 = nextf h" "same_payload h h1"
    using set_prev_ok[OF assms(3), of ?p h] by auto
  obtain h2 where h2: "set_next ?p ?n h1 = Some h2"
    "nextf h2 = (nextf h1)(?p := ?n)" "prevf h2 = prevf h1" "same_payload h1 h2"
    using set_next_ok[OF assms(2), of ?n h1] by auto
  obtain h3 where h3: "set_next (Lentry v) Lpoison1 h2 = Some h3"
    "nextf h3 = (nextf h2)(Lentry v := Lpoison1)" "prevf h3 = prevf h2" "same_payload h2 h3"
    using set_next_ok[OF v, of Lpoison1 h2] by auto
  obtain h4 where h4: "set_prev (Lentry v) Lpoison2 h3 = Some h4"
    "prevf h4 = (prevf h3)(Lentry v := Lpoison2)" "nextf h4 = nextf h3" "same_payload h3 h4"
    using set_prev_ok[OF v, of Lpoison2 h3] by auto
  have "list_del (Lentry v) h = Some h4"
    using h1(1) h2(1) h3(1) h4(1) v
    by (simp add: list_del_def list_del_between_def get_prev_ok get_next_ok)
  moreover have "same_payload h h4"
    using h1(4) h2(4) h3(4) h4(4) by (blast intro: same_payload_trans)
  ultimately show ?thesis
    using h1(2,3) h2(2,3) h3(2,3) h4(2,3) by simp
qed

lemma path_append:
  "path f a (xs @ ys) z \<longleftrightarrow> (\<exists>m. path f a xs m \<and> path f m ys z)"
  by (induction xs arbitrary: a) auto

lemma path_upd: "p \<notin> set xs \<Longrightarrow> path (f(p := v)) a xs z = path f a xs z"
  by (induction xs arbitrary: a) auto

lemma path_first: "path f a (x # xs) z \<Longrightarrow> f x = hd (xs @ [z])"
  by (cases xs) auto

lemma ring_add_tail:
  assumes "distinct (Lhead # E)" and "n \<notin> set (Lhead # E)"
    and "path f Lhead (Lhead # E) Lhead"
  shows "path (f(n := Lhead, last (Lhead # E) := n)) Lhead (Lhead # E @ [n]) Lhead"
proof -
  obtain R l where R: "Lhead # E = R @ [l]"
    by (metis append_butlast_last_id list.distinct(1))
  then have l: "last (Lhead # E) = l" by (metis last_snoc)
  from assms(1,2) have "distinct (R @ [l])" "n \<notin> set (R @ [l])"
    unfolding R by simp_all
  then have d: "l \<notin> set R" "n \<notin> set R" "n \<noteq> l"
    by auto
  from assms(3) R have "path f Lhead R l" "f l = Lhead"
    by (auto simp: path_append)
  then have "path (f(n := Lhead, l := n)) Lhead (R @ [l] @ [n]) Lhead"
    using d by (auto simp: path_append path_upd)
  then show ?thesis
    using R l by (metis append_Cons append_assoc)
qed


lemma ring_add_front:
  assumes "distinct (Lhead # E)" and "n \<notin> set (Lhead # E)"
    and "path f Lhead (Lhead # E) Lhead"
  shows "path (f(Lhead := n, n := f Lhead)) Lhead (Lhead # n # E) Lhead"
  using assms by (auto simp: path_upd)

lemma ring_del:
  assumes "distinct (Lhead # E1 @ v # E2)"
    and "path f Lhead (Lhead # E1 @ v # E2) Lhead"
  shows "f v = hd (E2 @ [Lhead]) \<and>
         path (f(last (Lhead # E1) := f v, v := junk)) Lhead (Lhead # E1 @ E2) Lhead"
proof -
  obtain R l where R: "Lhead # E1 = R @ [l]"
    by (metis append_butlast_last_id list.distinct(1))
  then have l: "last (Lhead # E1) = l" by (metis last_snoc)
  from assms(1) have "distinct ((Lhead # E1) @ v # E2)" by simp
  then have "distinct (R @ l # v # E2)" unfolding R by simp
  then have d: "l \<notin> set R" "v \<notin> set R" "l \<notin> set E2" "v \<notin> set E2" "l \<noteq> v"
    by auto
  from assms(2) have "path f Lhead ((Lhead # E1) @ v # E2) Lhead" by simp
  then have p: "path f Lhead R l" "f l = v" "path f (f v) E2 Lhead"
    unfolding R by (auto simp: path_append)
  have fv: "f v = hd (E2 @ [Lhead])"
    using p(3) by (cases E2) auto
  have "path (f(l := f v, v := junk)) Lhead (R @ [l] @ E2) Lhead"
    using p d by (auto simp: path_append path_upd)
  then have "path (f(l := f v, v := junk)) Lhead ((Lhead # E1) @ E2) Lhead"
    unfolding R by simp
  with fv l show ?thesis by simp
qed

lemma linked_prev_head:
  assumes "linked mem l xs"
  shows "prevf (mem, l) Lhead = last (Lhead # map Lentry xs)"
proof -
  from assms have "path (prevf (mem, l)) Lhead (Lhead # rev (map Lentry xs)) Lhead"
    by (simp add: linked_def)
  then have "prevf (mem, l) Lhead = hd (rev (map Lentry xs) @ [Lhead])"
    by (rule path_first)
  then show ?thesis
    by (cases xs rule: rev_cases) auto
qed

lemma linked_ring_distinct:
  assumes "linked mem l xs"
  shows "distinct (Lhead # map Lentry xs)"
  using assms by (auto simp: linked_def distinct_map inj_on_def)

lemma deref_ok_ring:
  assumes "NULL \<notin> set xs" and "p \<in> set (Lhead # map Lentry xs)"
  shows "deref_ok p"
  using assms by auto

lemma linked_add_tail:
  assumes "linked mem l xs" and "v \<notin> set xs" and "v \<noteq> NULL"
  shows "\<exists>mem' l'. list_add_tail (Lentry v) Lhead (mem, l) = Some (mem', l') \<and>
           linked mem' l' (xs @ [v]) \<and> same_payload (mem, l) (mem', l')"
proof -
  let ?h = "(mem, l)" and ?E = "map Lentry xs"
  let ?p = "last (Lhead # ?E)"
  have ph: "prevf ?h Lhead = ?p"
    using assms(1) by (rule linked_prev_head)
  have null: "NULL \<notin> set xs" using assms(1) by (simp add: linked_def)
  have "?p \<in> set (Lhead # ?E)" by (rule last_in_set) simp
  with null have ok: "deref_ok (prevf ?h Lhead)"
    unfolding ph by (rule deref_ok_ring)
  from list_add_tail_ok[OF assms(3) ok] obtain h' where h':
    "list_add_tail (Lentry v) Lhead ?h = Some h'"
    "nextf h' = (nextf ?h)(Lentry v := Lhead, ?p := Lentry v)"
    "prevf h' = (prevf ?h)(Lhead := Lentry v, Lentry v := prevf ?h Lhead)"
    "same_payload ?h h'"
    unfolding ph by auto
  have d: "distinct (Lhead # ?E)" using assms(1) by (rule linked_ring_distinct)
  have n: "Lentry v \<notin> set (Lhead # ?E)" using assms(2) by auto
  have fw: "path (nextf h') Lhead (Lhead # ?E @ [Lentry v]) Lhead"
    unfolding h'(2) using assms(1) by (intro ring_add_tail[OF d n]) (simp add: linked_def)
  have d': "distinct (Lhead # rev ?E)" using d by simp
  have n': "Lentry v \<notin> set (Lhead # rev ?E)" using n by simp
  have bw: "path (prevf h') Lhead (Lhead # Lentry v # rev ?E) Lhead"
    unfolding h'(3) using assms(1) by (intro ring_add_front[OF d' n']) (simp add: linked_def)
  have "linked (fst h') (snd h') (xs @ [v])"
    using fw bw assms null by (simp add: linked_def)
  with h'(1,4) show ?thesis
    by (cases h') auto
qed

lemma linked_del:
  assumes "linked mem l xs" and "v \<in> set xs"
  shows "\<exists>mem' l'. list_del (Lentry v) (mem, l) = Some (mem', l') \<and>
           linked mem' l' (remove1 v xs) \<and> same_payload (mem, l) (mem', l')"
proof -
  let ?h = "(mem, l)"
  from assms(2) obtain xs1 xs2 where xs: "xs = xs1 @ v # xs2"
    by (auto simp: in_set_conv_decomp)
  let ?E1 = "map Lentry xs1" and ?E2 = "map Lentry xs2"
  have null: "NULL \<notin> set xs" and dx: "distinct xs"
    using assms(1) by (simp_all add: linked_def)
  then have vn: "v \<noteq> NULL" using assms(2) by auto
  have d: "distinct (Lhead # ?E1 @ Lentry v # ?E2)"
    using linked_ring_distinct[OF assms(1)] unfolding xs by simp
  have fw: "path (nextf ?h) Lhead (Lhead # ?E1 @ Lentry v # ?E2) Lhead"
    using assms(1) unfolding xs by (simp add: linked_def)
  have d': "distinct (Lhead # rev ?E2 @ Lentry v # rev ?E1)"
    using d by auto
  have bw: "path (prevf ?h) Lhead (Lhead # rev ?E2 @ Lentry v # rev ?E1) Lhead"
    using assms(1) unfolding xs by (simp add: linked_def)
  let ?p = "last (Lhead # ?E1)" and ?n = "hd (?E2 @ [Lhead])"
  have pn: "last (Lhead # rev ?E2) = ?n" "hd (rev ?E1 @ [Lhead]) = ?p"
    by (cases xs2; simp) (cases xs1 rule: rev_cases; simp)
  note rf = ring_del[OF d fw, of Lpoison1]
  from rf have nv: "nextf ?h (Lentry v) = ?n"
    by (rule conjunct1)
  from rf have fw': "path ((nextf ?h)(?p := ?n, Lentry v := Lpoison1)) Lhead
      (Lhead # ?E1 @ ?E2) Lhead"
    unfolding nv by (rule conjunct2)
  note rb = ring_del[OF d' bw, of Lpoison2]
  from rb have pv: "prevf ?h (Lentry v) = ?p"
    unfolding pn by (rule conjunct1)
  from rb have bw': "path ((prevf ?h)(?n := ?p, Lentry v := Lpoison2)) Lhead
      (Lhead # rev ?E2 @ rev ?E1) Lhead"
    unfolding pn pv by (rule conjunct2)
  have "?p \<in> set (Lhead # map Lentry xs)" "?n \<in> set (Lhead # map Lentry xs)"
    unfolding xs by (cases xs1 rule: rev_cases; simp) (cases xs2; simp)
  with null have ok: "deref_ok (prevf ?h (Lentry v))" "deref_ok (nextf ?h (Lentry v))"
    unfolding nv pv by (blast intro: deref_ok_ring)+
  from list_del_ok[OF vn ok] obtain h' where h':
    "list_del (Lentry v) ?h = Some h'"
    "nextf h' = (nextf ?h)(?p := ?n, Lentry v := Lpoison1)"
    "prevf h' = (prevf ?h)(?n := ?p, Lentry v := Lpoison2)"
    "same_payload ?h h'"
    unfolding nv pv by auto
  have r: "remove1 v xs = xs1 @ xs2"
    using dx unfolding xs by (simp add: remove1_append)
  have "linked (fst h') (snd h') (remove1 v xs)"
    unfolding r using fw' bw' dx null h'(2,3) unfolding xs by (simp add: linked_def)
  with h'(1,4) show ?thesis
    by (cases h') auto
qed

subsection \<open>Looking a timing controller up\<close>

lemma find_vtc_loop_fail:
  assumes "find_vtc_loop mem np pos ret v = Some y"
  shows "fst y \<noteq> 0 \<longrightarrow> y = (ret, v)"
  by (rule find_vtc_loop.raw_induct
        [where P = "\<lambda>mem np pos ret v y. fst y \<noteq> 0 \<longrightarrow> y = (ret, v)", OF _ assms])
     (auto split: list_ptr.splits if_splits)

lemma scan_entries_absent:
  "np \<notin> (\<lambda>h. of_node (mem h)) ` set xs \<Longrightarrow> scan_entries mem np xs ret v = (ret, v)"
  by (induction xs) auto

lemma scan_entries_present:
  "np \<in> (\<lambda>h. of_node (mem h)) ` set xs \<Longrightarrow>
   fst (scan_entries mem np xs ret v) = 0 \<and>
   snd (scan_entries mem np xs ret v) \<in> set xs \<and>
   of_node (mem (snd (scan_entries mem np xs ret v))) = np"
  by (induction xs) auto

lemma scan_entries_unique:
  "h \<in> set xs \<Longrightarrow> inj_on (\<lambda>h. of_node (mem h)) (set xs) \<Longrightarrow>
   scan_entries mem (of_node (mem h)) xs ret v = (0, h)"
proof (induction xs)
  case Nil
  then show ?case by simp
next
  case (Cons x xs)
  show ?case
  proof (cases "of_node (mem x) = of_node (mem h)")
    case True
    with Cons.prems have "x = h"
      by (auto dest: inj_onD)
    with True show ?thesis by simp
  next
    case False
    with Cons.prems have "h \<in> set xs" and "inj_on (\<lambda>h. of_node (mem h)) (set xs)"
      by auto
    with Cons.IH False show ?thesis by simp
  qed
qed

lemma scan_entries_append:
  "\<forall>h \<in> set xs. of_node (mem h) \<noteq> np \<Longrightarrow>
   scan_entries mem np (xs @ ys) ret v = scan_entries mem np ys ret v"
  by (induction xs) auto

lemma scan_entries_cong:
  "\<forall>q. of_node (mem' q) = of_node (mem q) \<Longrightarrow>
   scan_entries mem' np xs ret v = scan_entries mem np xs ret v"
  by (induction xs) auto

lemma find_vtc_loop_path:
  "path (nextf (mem, l)) pos (map Lentry ys) Lhead \<Longrightarrow> NULL \<notin> set ys \<Longrightarrow>
   find_vtc_loop mem np pos ret v = Some (scan_entries mem np ys ret v)"
proof (induction ys arbitrary: pos)
  case Nil
  then show ?case
    by (subst find_vtc_loop.simps) simp
next
  case (Cons y ys)
  from Cons.prems have pos: "pos = Lentry y" and y: "y \<noteq> NULL" and ys: "NULL \<notin> set ys"
    and rest: "path (nextf (mem, l)) (nextf (mem, l) (Lentry y)) (map Lentry ys) Lhead"
    by auto
  from y have n: "nextf (mem, l) (Lentry y) = next (list_entry (mem y))"
    by (simp add: nextf_def)
  from Cons.IH[OF rest ys] show ?case
    unfolding pos n using y by (subst find_vtc_loop.simps) simp
qed

lemma find_vtc_linked:
  assumes "initialized l" and "linked mem l xs"
  shows "xlnx_of_find_vtc mem np vtc_in l = Some (scan_entries mem np xs (- EPROBE_DEFER) NULL)"
proof -
  from assms(2) have "path (nextf (mem, l)) (nextf (mem, l) Lhead) (map Lentry xs) Lhead"
    and "NULL \<notin> set xs"
    by (simp_all add: linked_def)
  moreover have "nextf (mem, l) Lhead = next (head l)"
    by (simp add: nextf_def)
  ultimately show ?thesis
    using assms(1) by (simp add: xlnx_of_find_vtc_def find_vtc_loop_path)
qed

lemmas list_eval = find_vtc_after_def xlnx_vtc_register_def xlnx_vtc_unregister_def
  list_add_tail_def list_add_between_def list_del_def list_del_between_def
  get_next_def get_prev_def set_next_def set_prev_def xlnx_of_find_vtc_def
  xlnx_vtc_list_init_def zeroed_vtc_list_def find_vtc_loop.simps
  example_mem_def example_mem_123_def example_list_123_def NULL_def

lemma example_linked_123: "linked example_mem_123 example_list_123 [1, 2, 3]"
  by (simp add: linked_def nextf_def prevf_def example_mem_123_def example_list_123_def NULL_def)

text \<open>
  Claim C10.  Whenever \<open>xlnx_of_find_vtc\<close> returns a failure code, the caller's
  output slot holds \<open>NULL\<close> on return, whatever it held on entry.
\<close>

theorem find_vtc_failure_clears_output:
  assumes "xlnx_of_find_vtc mem np vtc_in vtc_list = Some (ret, v)" and "ret \<noteq> 0"
  shows "v = NULL"
proof (cases "initialized vtc_list")
  case True
  with assms(1) have "find_vtc_loop mem np (next (head vtc_list)) (- EPROBE_DEFER) NULL =
      Some (ret, v)"
    by (simp add: xlnx_of_find_vtc_def)
  from find_vtc_loop_fail[OF this] assms(2) show ?thesis
    by simp
next
  case False
  with assms(1) show ?thesis
    by (simp add: xlnx_of_find_vtc_def)
qed

theorem find_vtc_failure_clears_output_witness:
  "xlnx_of_find_vtc example_mem_123 105 7 example_list_123 = Some (- EPROBE_DEFER, NULL) \<and>
   - EPROBE_DEFER \<noteq> 0"
proof -
  have f: "xlnx_of_find_vtc example_mem_123 105 7 example_list_123 = Some (- EPROBE_DEFER, NULL)"
    by (simp add: list_eval)
  have n: "- EPROBE_DEFER \<noteq> 0"
    by (simp add: EPROBE_DEFER_def)
  from find_vtc_failure_clears_output [OF f n] f n show ?thesis
    by simp
qed

subsection \<open>Registering\<close>

text \<open>
  Claim C6, as stated, fails.  With the handles 1, 2 and 3 linked,
  \<open>xlnx_vtc_register\<close> of handle 2 returns 0 but does not append:
  \<^verbatim>\<open>list_add_tail\<close> rewires the pointers so that the head is reached right after
  handle 2, and the lookup of handle 3's device node, which succeeded before,
  gives \<open>-EPROBE_DEFER\<close>.
\<close>

theorem vtc_register_of_linked_handle:
  "linked example_mem_123 example_list_123 [1, 2, 3] \<and>
   xlnx_of_find_vtc example_mem_123 103 7 example_list_123 = Some (0, 3) \<and>
   map_option fst (xlnx_vtc_register example_mem_123 2 example_list_123) = Some 0 \<and>
   find_vtc_after [Register 2] example_mem_123 example_list_123 103 7 =
     Some (- EPROBE_DEFER, NULL)"
  using example_linked_123 by (simp add: list_eval)

text \<open>
  Claim C6, amended.  \<open>xlnx_vtc_register\<close> returns \<open>-EINVAL\<close> when the handle or
  its device node is \<open>NULL\<close> and \<open>-EFAULT\<close> when the list is not initialized,
  leaving memory as it was; otherwise, on an intact list into which the handle
  is not linked already, it appends the handle, returns 0, and a following
  \<open>xlnx_of_find_vtc\<close> for the handle's device node succeeds with a handle of that
  node, which is the handle itself when no earlier entry has the same node.
\<close>

theorem vtc_register_results:
  "(v = NULL \<or> of_node (mem v) = NULL \<longrightarrow>
      xlnx_vtc_register mem v vtc_list = Some (- EINVAL, mem, vtc_list)) \<and>
   (v \<noteq> NULL \<and> of_node (mem v) \<noteq> NULL \<and> \<not> initialized vtc_list \<longrightarrow>
      xlnx_vtc_register mem v vtc_list = Some (- EFAULT, mem, vtc_list)) \<and>
   (v \<noteq> NULL \<and> of_node (mem v) \<noteq> NULL \<and> initialized vtc_list \<and>
    linked mem vtc_list xs \<and> v \<notin> set xs \<longrightarrow>
      (\<exists>mem' vtc_list'.
         xlnx_vtc_register mem v vtc_list = Some (0, mem', vtc_list') \<and>
         initialized vtc_list' \<and> linked mem' vtc_list' (xs @ [v]) \<and>
         (\<forall>q. of_node (mem' q) = of_node (mem q)) \<and>
         (\<exists>found. xlnx_of_find_vtc mem' (of_node (mem v)) vtc_in vtc_list' = Some (0, found) \<and>
                   of_node (mem found) = of_node (mem v)) \<and>
         ((\<forall>h \<in> set xs. of_node (mem h) \<noteq> of_node (mem v)) \<longrightarrow>
            xlnx_of_find_vtc mem' (of_node (mem v)) vtc_in vtc_list' = Some (0, v))))"
proof (intro conjI impI)
  assume a: "v \<noteq> NULL \<and> of_node (mem v) \<noteq> NULL \<and> initialized vtc_list \<and>
    linked mem vtc_list xs \<and> v \<notin> set xs"
  then have lk: "linked mem vtc_list xs" and nin: "v \<notin> set xs" and vn: "v \<noteq> NULL"
    by simp_all
  from linked_add_tail[OF lk nin vn] obtain mem' l' where add:
    "list_add_tail (Lentry v) Lhead (mem, vtc_list) = Some (mem', l')"
    "linked mem' l' (xs @ [v])" "same_payload (mem, vtc_list) (mem', l')"
    by auto
  have reg: "xlnx_vtc_register mem v vtc_list = Some (0, mem', l')"
    using a add(1) by (simp add: xlnx_vtc_register_def)
  have i: "initialized l'" and same: "\<forall>q. of_node (mem' q) = of_node (mem q)"
    using a add(3) by (simp_all add: same_payload_def)
  have f: "xlnx_of_find_vtc mem' np vtc_in l' =
      Some (scan_entries mem np (xs @ [v]) (- EPROBE_DEFER) NULL)" for np
    using find_vtc_linked[OF i add(2)] scan_entries_cong[OF same] by simp
  have "of_node (mem v) \<in> (\<lambda>h. of_node (mem h)) ` set (xs @ [v])"
    by simp
  from scan_entries_present[OF this, of "- EPROBE_DEFER" NULL]
  have pres: "\<exists>found. xlnx_of_find_vtc mem' (of_node (mem v)) vtc_in l' = Some (0, found) \<and>
                   of_node (mem found) = of_node (mem v)"
    unfolding f by (metis prod.collapse)
  have u: "xlnx_of_find_vtc mem' (of_node (mem v)) vtc_in l' = Some (0, v)"
    if "\<forall>h \<in> set xs. of_node (mem h) \<noteq> of_node (mem v)"
    using that unfolding f by (simp add: scan_entries_append)
  show "\<exists>mem' vtc_list'.
         xlnx_vtc_register mem v vtc_list = Some (0, mem', vtc_list') \<and>
         initialized vtc_list' \<and> linked mem' vtc_list' (xs @ [v]) \<and>
         (\<forall>q. of_node (mem' q) = of_node (mem q)) \<and>
         (\<exists>found. xlnx_of_find_vtc mem' (of_node (mem v)) vtc_in vtc_list' = Some (0, found) \<and>
                   of_node (mem found) = of_node (mem v)) \<and>
         ((\<forall>h \<in> set xs. of_node (mem h) \<noteq> of_node (mem v)) \<longrightarrow>
            xlnx_of_find_vtc mem' (of_node (mem v)) vtc_in vtc_list' = Some (0, v))"
    using reg i add(2) same pres u by blast
qed (auto simp: xlnx_vtc_register_def)

theorem vtc_register_results_witness:
  "xlnx_vtc_register example_mem NULL example_list_123 =
     Some (- EINVAL, example_mem, example_list_123) \<and>
   xlnx_vtc_register example_mem 2 zeroed_vtc_list =
     Some (- EFAULT, example_mem, zeroed_vtc_list) \<and>
   linked example_mem_123 example_list_123 [1, 2, 3] \<and>
   map_option fst (xlnx_vtc_register example_mem_123 4 example_list_123) = Some 0 \<and>
   find_vtc_after [Register 4] example_mem_123 example_list_123 104 7 = Some (0, 4)"
proof -
  have a: "xlnx_vtc_register example_mem NULL example_list_123 =
     Some (- EINVAL, example_mem, example_list_123)"
    using vtc_register_results [of NULL example_mem example_list_123 "[]" 7] by simp
  have b: "xlnx_vtc_register example_mem 2 zeroed_vtc_list =
     Some (- EFAULT, example_mem, zeroed_vtc_list)"
    using vtc_register_results [of 2 example_mem zeroed_vtc_list "[]" 7]
    by (simp add: example_mem_def zeroed_vtc_list_def NULL_def)
  have "\<exists>mem' vtc_list'.
         xlnx_vtc_register example_mem_123 4 example_list_123 = Some (0, mem', vtc_list') \<and>
         xlnx_of_find_vtc mem' (of_node (example_mem_123 4)) 7 vtc_list' = Some (0, 4)"
    using vtc_register_results [of 4 example_mem_123 example_list_123 "[1, 2, 3]" 7] example_linked_123
    by (simp add: example_mem_def example_mem_123_def example_list_123_def NULL_def) blast
  then have c: "map_option fst (xlnx_vtc_register example_mem_123 4 example_list_123) = Some 0"
    "find_vtc_after [Register 4] example_mem_123 example_list_123 104 7 = Some (0, 4)"
    by (auto simp: find_vtc_after_def example_mem_123_def example_mem_def)
  from a b c example_linked_123 show ?thesis
    by simp
qed

subsection \<open>The registry over sequences of operations\<close>

lemma spec_registered_step:
  "spec_registered mem (op # ops) regd = spec_registered mem ops (spec_registered mem [op] regd)"
  by (cases op) simp_all

lemma proper_ops_step:
  "proper_ops mem (op # ops) regd \<longleftrightarrow>
     proper_ops mem [op] regd \<and> proper_ops mem ops (spec_registered mem [op] regd)"
  by (cases op) simp_all

lemma spec_registered_subset:
  "spec_registered mem ops regd \<subseteq> regd \<union> vtc_op_handle ` set ops"
proof (induction ops arbitrary: regd)
  case Nil
  then show ?case by simp
next
  case (Cons op ops)
  show ?case
    using Cons.IH[of "spec_registered mem [op] regd"]
    by (subst spec_registered_step) (cases op; auto split: if_splits)
qed

lemma run_vtc_op_tracks:
  assumes "tracks mem0 h regd" and "proper_ops mem0 [op] regd"
  shows "\<exists>h'. run_vtc_op op h = Some h' \<and> tracks mem0 h' (spec_registered mem0 [op] regd)"
proof -
  obtain mem l where h: "h = (mem, l)" by (cases h)
  from assms(1) obtain xs where t: "initialized l" "\<forall>q. of_node (mem q) = of_node (mem0 q)"
    "linked mem l xs" "set xs = regd"
    unfolding tracks_def h by auto
  show ?thesis
  proof (cases op)
    case (Register v)
    show ?thesis
    proof (cases "v \<noteq> NULL \<and> of_node (mem0 v) \<noteq> NULL")
      case True
      from assms(2) Register t(4) have "v \<notin> set xs" by simp
      from linked_add_tail[OF t(3) this] True obtain mem' l' where a:
        "list_add_tail (Lentry v) Lhead (mem, l) = Some (mem', l')"
        "linked mem' l' (xs @ [v])" "same_payload (mem, l) (mem', l')"
        by auto
      have "run_vtc_op op h = Some (mem', l')"
        using True t(1,2) a(1) unfolding h Register by (simp add: xlnx_vtc_register_def)
      moreover have "tracks mem0 (mem', l') (spec_registered mem0 [op] regd)"
        using True t a(2,3) unfolding Register tracks_def same_payload_def
        by (auto intro!: exI[of _ "xs @ [v]"])
      ultimately show ?thesis by blast
    next
      case False
      then have "run_vtc_op op h = Some h"
        using t(2) unfolding h Register by (auto simp: xlnx_vtc_register_def)
      moreover have "spec_registered mem0 [op] regd = regd"
        using False unfolding Register by auto
      ultimately show ?thesis using assms(1) by simp
    qed
  next
    case (Unregister v)
    show ?thesis
    proof (cases "v = NULL")
      case True
      then have "run_vtc_op op h = Some h"
        unfolding h Unregister by (simp add: xlnx_vtc_unregister_def)
      moreover have "NULL \<notin> regd"
        using t(3,4) by (auto simp: linked_def)
      then have "spec_registered mem0 [op] regd = regd"
        using True unfolding Unregister by simp
      ultimately show ?thesis using assms(1) by simp
    next
      case False
      with assms(2) Unregister t(4) have "v \<in> set xs" by simp
      from linked_del[OF t(3) this] obtain mem' l' where a:
        "list_del (Lentry v) (mem, l) = Some (mem', l')"
        "linked mem' l' (remove1 v xs)" "same_payload (mem, l) (mem', l')"
        by auto
      have "run_vtc_op op h = Some (mem', l')"
        using False t(1) a(1) unfolding h Unregister by (simp add: xlnx_vtc_unregister_def)
      moreover have "distinct xs" using t(3) by (simp add: linked_def)
      then have "set (remove1 v xs) = regd - {v}"
        using t(4) by simp
      then have "tracks mem0 (mem', l') (spec_registered mem0 [op] regd)"
        using t a(2,3) unfolding Unregister tracks_def same_payload_def
        by (auto intro!: exI[of _ "remove1 v xs"])
      ultimately show ?thesis by blast
    qed
  qed
qed

lemma run_vtc_ops_tracks:
  "tracks mem0 h regd \<Longrightarrow> proper_ops mem0 ops regd \<Longrightarrow>
   \<exists>h'. run_vtc_ops ops h = Some h' \<and> tracks mem0 h' (spec_registered mem0 ops regd)"
proof (induction ops arbitrary: h regd)
  case Nil
  then show ?case by simp
next
  case (Cons op ops)
  from Cons.prems(2) have p: "proper_ops mem0 [op] regd"
    "proper_ops mem0 ops (spec_registered mem0 [op] regd)"
    by (simp_all add: proper_ops_step[of mem0 op ops])
  from run_vtc_op_tracks[OF Cons.prems(1) p(1)] obtain h1 where
    h1: "run_vtc_op op h = Some h1" "tracks mem0 h1 (spec_registered mem0 [op] regd)"
    by blast
  from Cons.IH[OF h1(2) p(2)] obtain h' where
    "run_vtc_ops ops h1 = Some h'"
    "tracks mem0 h' (spec_registered mem0 ops (spec_registered mem0 [op] regd))"
    by blast
  with h1(1) show ?case
    by (simp add: spec_registered_step[of mem0 op ops])
qed

text \<open>
  Claim C3, as stated, fails.  The handles 1 and 2 have distinct device nodes;
  after registering 1, 2 and 1 again (each call returns), handle 2 is still
  registered, yet the lookup of its device node gives \<open>-EPROBE_DEFER\<close>.
\<close>

theorem find_vtc_after_double_register:
  "of_node (example_mem 1) \<noteq> of_node (example_mem 2) \<and>
   2 \<in> spec_registered example_mem [Register 1, Register 2, Register 1] {} \<and>
   find_vtc_after [Register 1, Register 2, Register 1] example_mem
     (snd (xlnx_vtc_list_init zeroed_vtc_list)) (of_node (example_mem 2)) 7 =
     Some (- EPROBE_DEFER, NULL)"
  by (simp add: list_eval)

text \<open>
  Claim C3, amended.  Run any sequence of register and unregister operations, on
  handles with distinct device nodes, from a freshly initialized list, such that
  no handle is registered while it is registered and none is unregistered unless
  it is registered.  Then every operation returns, and afterwards
  \<open>xlnx_of_find_vtc\<close> returns 0 and the handle itself for the device node of every
  currently registered handle, and \<open>-EPROBE_DEFER\<close> (with \<open>NULL\<close>) for every device
  node that belongs to no currently registered handle: one never registered or
  one unregistered again.  On a list that is not initialized it returns
  \<open>-EPROBE_DEFER\<close> for every node.
\<close>

theorem find_vtc_after_register_unregister:
  assumes distinct_ids: "inj_on (\<lambda>h. of_node (mem h)) (vtc_op_handle ` set ops)"
    and fresh: "\<not> initialized l0"
    and proper: "proper_ops mem ops {}"
  shows "(\<forall>h \<in> spec_registered mem ops {}.
            find_vtc_after ops mem (snd (xlnx_vtc_list_init l0)) (of_node (mem h)) vtc_in =
              Some (0, h)) \<and>
         (\<forall>np. np \<notin> (\<lambda>h. of_node (mem h)) ` spec_registered mem ops {} \<longrightarrow>
            find_vtc_after ops mem (snd (xlnx_vtc_list_init l0)) np vtc_in =
              Some (- EPROBE_DEFER, NULL)) \<and>
         (\<forall>np m l. \<not> initialized l \<longrightarrow>
            xlnx_of_find_vtc m np vtc_in l = Some (- EPROBE_DEFER, NULL))"
proof -
  let ?l1 = "snd (xlnx_vtc_list_init l0)"
  let ?regd = "spec_registered mem ops {}"
  have "linked mem ?l1 []"
    using fresh by (simp add: xlnx_vtc_list_init_def linked_def nextf_def prevf_def)
  then have "tracks mem (mem, ?l1) {}"
    using fresh by (auto simp: tracks_def xlnx_vtc_list_init_def)
  from run_vtc_ops_tracks[OF this proper] obtain mem' l' xs where
    ran: "run_vtc_ops ops (mem, ?l1) = Some (mem', l')"
    and i: "initialized l'" and same: "\<forall>q. of_node (mem' q) = of_node (mem q)"
    and lk: "linked mem' l' xs" and xs: "set xs = ?regd"
    by (auto simp: tracks_def)
  have f: "find_vtc_after ops mem ?l1 np vtc_in =
      Some (scan_entries mem np xs (- EPROBE_DEFER) NULL)" for np
    using ran find_vtc_linked[OF i lk] scan_entries_cong[OF same]
    by (simp add: find_vtc_after_def)
  have "?regd \<subseteq> vtc_op_handle ` set ops"
    using spec_registered_subset[of mem ops "{}"] by simp
  with distinct_ids have inj: "inj_on (\<lambda>h. of_node (mem h)) (set xs)"
    unfolding xs by (rule inj_on_subset)
  have a: "find_vtc_after ops mem ?l1 (of_node (mem h)) vtc_in = Some (0, h)"
    if "h \<in> ?regd" for h
    using that xs scan_entries_unique[OF _ inj, of h] by (simp add: f)
  have b: "find_vtc_after ops mem ?l1 np vtc_in = Some (- EPROBE_DEFER, NULL)"
    if "np \<notin> (\<lambda>h. of_node (mem h)) ` ?regd" for np
    using that xs scan_entries_absent[of np mem xs] by (simp add: f)
  have c: "xlnx_of_find_vtc m np vtc_in l = Some (- EPROBE_DEFER, NULL)"
    if "\<not> initialized l" for np m l
    using that by (simp add: xlnx_of_find_vtc_def)
  from a b c show ?thesis by blast
qed

theorem find_vtc_after_register_unregister_witness:
  "inj_on (\<lambda>h. of_node (example_mem h)) (vtc_op_handle ` set example_ops) \<and>
   \<not> initialized zeroed_vtc_list \<and>
   proper_ops example_mem example_ops {} \<and>
   spec_registered example_mem example_ops {} = {2, 3} \<and>
   find_vtc_after example_ops example_mem (snd (xlnx_vtc_list_init zeroed_vtc_list)) 102 7 =
     Some (0, 2) \<and>
   find_vtc_after example_ops example_mem (snd (xlnx_vtc_list_init zeroed_vtc_list)) 103 7 =
     Some (0, 3) \<and>
   find_vtc_after example_ops example_mem (snd (xlnx_vtc_list_init zeroed_vtc_list)) 101 7 =
     Some (- EPROBE_DEFER, NULL) \<and>
   find_vtc_after example_ops example_mem (snd (xlnx_vtc_list_init zeroed_vtc_list)) 104 7 =
     Some (- EPROBE_DEFER, NULL)"
proof -
  have inj: "inj_on (\<lambda>h. of_node (example_mem h)) (vtc_op_handle ` set example_ops)"
    by (simp add: inj_on_def example_mem_def)
  have fresh: "\<not> initialized zeroed_vtc_list"
    by (simp add: zeroed_vtc_list_def)
  have proper: "proper_ops example_mem example_ops {}"
    by (simp add: example_ops_def example_mem_def NULL_def)
  have regd: "spec_registered example_mem example_ops {} = {2, 3}"
    by (auto simp add: example_ops_def example_mem_def NULL_def)
  from find_vtc_after_register_unregister [OF inj fresh proper, of 7]
  have "(\<forall>h \<in> {2, 3}.
           find_vtc_after example_ops example_mem (snd (xlnx_vtc_list_init zeroed_vtc_list))
             (of_node (example_mem h)) 7 = Some (0, h)) \<and>
        (\<forall>np. np \<notin> (\<lambda>h. of_node (example_mem h)) ` {2, 3} \<longrightarrow>
           find_vtc_after example_ops example_mem (snd (xlnx_vtc_list_init zeroed_vtc_list))
             np 7 = Some (- EPROBE_DEFER, NULL))"
    unfolding regd by blast
  then have
    "find_vtc_after example_ops example_mem (snd (xlnx_vtc_list_init zeroed_vtc_list)) 102 7 =
       Some (0, 2)"
    "find_vtc_after example_ops example_mem (snd (xlnx_vtc_list_init zeroed_vtc_list)) 103 7 =
       Some (0, 3)"
    "find_vtc_after example_ops example_mem (snd (xlnx_vtc_list_init zeroed_vtc_list)) 101 7 =
       Some (- EPROBE_DEFER, NULL)"
    "find_vtc_after example_ops example_mem (snd (xlnx_vtc_list_init zeroed_vtc_list)) 104 7 =
       Some (- EPROBE_DEFER, NULL)"
    by (simp_all add: example_mem_def)
  with inj fresh proper regd show ?thesis
    by blast
qed

subsection \<open>Checking a commit\<close>

text \<open>
  Claim C4.  When the new CRTC state enables the CRTC and its output bus format
  differs from the generator's, \<open>xlnx_tpg_crtc_check\<close> rejects the commit: it
  returns a nonzero code, which is \<open>-EINVAL\<close> unless the primary plane helper has
  already failed with its own code, and it leaves the generator (registers and
  calls made included) and the commit as they were.
\<close>

theorem crtc_check_rejects_bus_format_mismatch:
  assumes "state_enable (new_crtc_state state)"
    and "state_output_bus_format (new_crtc_state state) \<noteq> output_bus_format tpg"
  shows "fst (xlnx_tpg_crtc_check check_primary_plane add_affected_planes tpg state) \<noteq> 0 \<and>
         fst (xlnx_tpg_crtc_check check_primary_plane add_affected_planes tpg state) =
           (if check_primary_plane \<noteq> 0 then check_primary_plane else - EINVAL) \<and>
         snd (xlnx_tpg_crtc_check check_primary_plane add_affected_planes tpg state) = (tpg, state)"
  using assms by (auto simp: xlnx_tpg_crtc_check_def Let_def EINVAL_def)

theorem crtc_check_rejects_bus_format_mismatch_witness:
  "state_enable (new_crtc_state (example_commit MEDIA_BUS_FMT_VUY8_1X24)) \<and>
   state_output_bus_format (new_crtc_state (example_commit MEDIA_BUS_FMT_VUY8_1X24)) \<noteq>
     output_bus_format example_tpg \<and>
   xlnx_tpg_crtc_check 0 0 example_tpg (example_commit MEDIA_BUS_FMT_VUY8_1X24) =
     (- EINVAL, example_tpg, example_commit MEDIA_BUS_FMT_VUY8_1X24)"
  using crtc_check_rejects_bus_format_mismatch [of "example_commit MEDIA_BUS_FMT_VUY8_1X24" example_tpg 0 0]
  by (simp add: example_commit_def example_tpg_def media_bus_fmt_defs prod_eq_iff)

subsection \<open>Enabling\<close>

text \<open>
  Claim C7.  With a timing controller resolved at probe time,
  \<open>xlnx_tpg_crtc_enable\<close> makes its calls in this order: the controller's
  \<open>set_timing\<close> with the converted mode, the controller's \<open>enable\<close> (each if the
  controller implements the callback), then the writes of the mode's width and
  height, of the colour format fixed at probe time, and of the start and
  auto-restart bits to the control register; the four registers hold these
  values afterwards.
\<close>

theorem crtc_enable_call_order:
  assumes "vtc tpg \<noteq> NULL"
  shows "calls (xlnx_tpg_crtc_enable to_videomode mem tpg) =
           calls tpg @
           (case set_timing (mem (vtc tpg)) of
              None \<Rightarrow> []
            | Some _ \<Rightarrow> [Vtc_set_timing (vtc tpg) (to_videomode (adjusted_mode (crtc_state tpg)))]) @
           (case enable (mem (vtc tpg)) of
              None \<Rightarrow> []
            | Some _ \<Rightarrow> [Vtc_enable (vtc tpg)]) @
           [Writel XLNX_TPG_ACTIVE_WIDTH (ucast (hdisplay (adjusted_mode (crtc_state tpg)))),
            Writel XLNX_TPG_ACTIVE_HEIGHT (ucast (vdisplay (adjusted_mode (crtc_state tpg)))),
            Writel XLNX_TPG_COLOR_FORMAT (xlnx_tpg_format_value (color_format tpg)),
            Writel XLNX_TPG_CONTROL (XLNX_TPG_START OR XLNX_TPG_AUTO_RESTART)] \<and>
         regs (xlnx_tpg_crtc_enable to_videomode mem tpg) XLNX_TPG_ACTIVE_WIDTH =
           ucast (hdisplay (adjusted_mode (crtc_state tpg))) \<and>
         regs (xlnx_tpg_crtc_enable to_videomode mem tpg) XLNX_TPG_ACTIVE_HEIGHT =
           ucast (vdisplay (adjusted_mode (crtc_state tpg))) \<and>
         regs (xlnx_tpg_crtc_enable to_videomode mem tpg) XLNX_TPG_COLOR_FORMAT =
           xlnx_tpg_format_value (color_format tpg) \<and>
         regs (xlnx_tpg_crtc_enable to_videomode mem tpg) XLNX_TPG_CONTROL =
           XLNX_TPG_START OR XLNX_TPG_AUTO_RESTART"
proof -
  have order: "calls (xlnx_tpg_crtc_enable to_videomode mem tpg) =
           calls tpg @
           (case set_timing (mem (vtc tpg)) of
              None \<Rightarrow> []
            | Some _ \<Rightarrow> [Vtc_set_timing (vtc tpg) (to_videomode (adjusted_mode (crtc_state tpg)))]) @
           (case enable (mem (vtc tpg)) of
              None \<Rightarrow> []
            | Some _ \<Rightarrow> [Vtc_enable (vtc tpg)]) @
           [Writel XLNX_TPG_ACTIVE_WIDTH (ucast (hdisplay (adjusted_mode (crtc_state tpg)))),
            Writel XLNX_TPG_ACTIVE_HEIGHT (ucast (vdisplay (adjusted_mode (crtc_state tpg)))),
            Writel XLNX_TPG_COLOR_FORMAT (xlnx_tpg_format_value (color_format tpg)),
            Writel XLNX_TPG_CONTROL (XLNX_TPG_START OR XLNX_TPG_AUTO_RESTART)]"
    using assms
    by (simp add: xlnx_tpg_crtc_enable_def xlnx_vtc_iface_set_timing_def
        xlnx_vtc_iface_enable_def xlnx_tpg_set_dimensions_def xlnx_tpg_set_format_def
        xlnx_tpg_start_def xlnx_tpg_write_def Let_def split: option.splits)
  have programmed:
    "regs (xlnx_tpg_crtc_enable to_videomode mem tpg) XLNX_TPG_ACTIVE_WIDTH =
       ucast (hdisplay (adjusted_mode (crtc_state tpg)))"
    "regs (xlnx_tpg_crtc_enable to_videomode mem tpg) XLNX_TPG_ACTIVE_HEIGHT =
       ucast (vdisplay (adjusted_mode (crtc_state tpg)))"
    "regs (xlnx_tpg_crtc_enable to_videomode mem tpg) XLNX_TPG_COLOR_FORMAT =
       xlnx_tpg_format_value (color_format tpg)"
    "regs (xlnx_tpg_crtc_enable to_videomode mem tpg) XLNX_TPG_CONTROL =
       XLNX_TPG_START OR XLNX_TPG_AUTO_RESTART"
    by (simp_all add: xlnx_tpg_crtc_enable_def xlnx_tpg_set_dimensions_def
        xlnx_tpg_set_format_def xlnx_tpg_start_def xlnx_tpg_write_def Let_def
        XLNX_TPG_ACTIVE_WIDTH_def XLNX_TPG_ACTIVE_HEIGHT_def XLNX_TPG_COLOR_FORMAT_def
        XLNX_TPG_CONTROL_def)
  from order programmed show ?thesis by simp
qed

theorem crtc_enable_call_order_witness:
  "vtc example_tpg \<noteq> NULL \<and>
   calls (xlnx_tpg_crtc_enable example_to_videomode example_mem example_tpg) =
     [Vtc_set_timing 1 (example_to_videomode example_mode),
      Vtc_enable 1,
      Writel XLNX_TPG_ACTIVE_WIDTH 1920,
      Writel XLNX_TPG_ACTIVE_HEIGHT 1080,
      Writel XLNX_TPG_COLOR_FORMAT 2,
      Writel XLNX_TPG_CONTROL 0x81] \<and>
   regs (xlnx_tpg_crtc_enable example_to_videomode example_mem example_tpg)
     XLNX_TPG_ACTIVE_WIDTH = 1920 \<and>
   regs (xlnx_tpg_crtc_enable example_to_videomode example_mem example_tpg)
     XLNX_TPG_ACTIVE_HEIGHT = 1080 \<and>
   regs (xlnx_tpg_crtc_enable example_to_videomode example_mem example_tpg)
     XLNX_TPG_COLOR_FORMAT = 2 \<and>
   regs (xlnx_tpg_crtc_enable example_to_videomode example_mem example_tpg)
     XLNX_TPG_CONTROL = 0x81"
  using crtc_enable_call_order [of example_tpg example_to_videomode example_mem]
  by (simp add: example_tpg_def example_mem_def example_mode_def NULL_def
      XLNX_TPG_START_def XLNX_TPG_AUTO_RESTART_def BIT_def)

subsection \<open>Disabling\<close>

text \<open>
  Claim C2, as stated, fails.  An event armed by \<open>xlnx_tpg_plane_atomic_update\<close>
  sits in \<^verbatim>\<open>tpg->drm->event\<close>; \<open>xlnx_tpg_crtc_disable\<close> leaves it there, neither
  completed nor sent.
\<close>

theorem crtc_disable_keeps_pending_event:
  "drm_event example_armed_tpg = Some example_event \<and>
   drm_event (xlnx_tpg_crtc_disable example_mem example_armed_tpg) = Some example_event \<and>
   Complete_all (base_completion example_event) \<notin>
     set (calls (xlnx_tpg_crtc_disable example_mem example_armed_tpg)) \<and>
   Drm_crtc_send_vblank_event example_event \<notin>
     set (calls (xlnx_tpg_crtc_disable example_mem example_armed_tpg))"
  by (simp add: example_armed_tpg_def xlnx_tpg_plane_atomic_update_def example_flip_tpg_def
      example_tpg_def call_def example_event_def xlnx_tpg_crtc_disable_def
      xlnx_vtc_iface_disable_def example_mem_def NULL_def)

text \<open>
  Claim C2, amended.  \<open>xlnx_tpg_crtc_disable\<close> completes, before it returns, the
  event still held in the CRTC's state (\<^verbatim>\<open>crtc->state->event\<close>), if there is one,
  and clears that field, after disabling the timing controller and before
  \<^verbatim>\<open>drm_crtc_vblank_off\<close>; the slot \<^verbatim>\<open>tpg->drm->event\<close> is left as it was.
\<close>

theorem crtc_disable_completes_state_event:
  "crtc_state (xlnx_tpg_crtc_disable mem tpg) = (crtc_state tpg)\<lparr>state_event := None\<rparr> \<and>
   calls (xlnx_tpg_crtc_disable mem tpg) =
     (if vtc tpg \<noteq> NULL then xlnx_vtc_iface_disable mem (vtc tpg) (calls tpg) else calls tpg) @
     (case state_event (crtc_state tpg) of
        None \<Rightarrow> []
      | Some e \<Rightarrow> [Complete_all (base_completion e)]) @
     [Drm_crtc_vblank_off] \<and>
   drm_event (xlnx_tpg_crtc_disable mem tpg) = drm_event tpg"
  by (simp add: xlnx_tpg_crtc_disable_def call_def Let_def split: option.splits)

subsection \<open>Probing with an unsupported bus format\<close>

lemma xlnx_tpg_bus_to_color_format_eq:
  "xlnx_tpg_bus_to_color_format bus_format =
     (case map_of format_map bus_format of None \<Rightarrow> XTPG_FMT_INVALID | Some c \<Rightarrow> c)"
  by (simp add: xlnx_tpg_bus_to_color_format_def bus_to_color_format_loop_map_of)

text \<open>
  Claim C1 against the code.  With the bus format \<open>0x100a\<close>
  (\<^verbatim>\<open>MEDIA_BUS_FMT_RGB888_1X24\<close>), which the table does not hold, and everything
  else in order, \<open>xlnx_tpg_probe\<close> returns 0 with \<open>XTPG_FMT_INVALID\<close> as colour
  format; a commit with that bus format passes \<open>xlnx_tpg_crtc_check\<close>, and
  \<open>xlnx_tpg_crtc_enable\<close> writes the value 4 of \<open>XTPG_FMT_INVALID\<close> to the colour
  format register and starts the generator.
\<close>

theorem probe_accepts_unsupported_bus_format:
  "xlnx_tpg_bus_to_color_format 0x100a = XTPG_FMT_INVALID \<and>
   xlnx_tpg_probe (example_env 0x100a) example_mem_123 example_list_123 =
     Some (0, Some (example_probed_tpg 0x100a XTPG_FMT_INVALID)) \<and>
   fst (xlnx_tpg_crtc_check 0 0 (example_probed_tpg 0x100a XTPG_FMT_INVALID)
     (example_commit 0x100a)) = 0 \<and>
   regs (xlnx_tpg_crtc_enable example_to_videomode example_mem
          ((example_probed_tpg 0x100a XTPG_FMT_INVALID)
             \<lparr>crtc_state := new_crtc_state (example_commit 0x100a)\<rparr>)) XLNX_TPG_COLOR_FORMAT = 4 \<and>
   regs (xlnx_tpg_crtc_enable example_to_videomode example_mem
          ((example_probed_tpg 0x100a XTPG_FMT_INVALID)
             \<lparr>crtc_state := new_crtc_state (example_commit 0x100a)\<rparr>)) XLNX_TPG_CONTROL = 0x81"
proof -
  have f: "xlnx_tpg_bus_to_color_format 0x100a = XTPG_FMT_INVALID"
    by (simp add: xlnx_tpg_bus_to_color_format_eq format_map_def media_bus_fmt_defs)
  have p: "xlnx_tpg_probe (example_env 0x100a) example_mem_123 example_list_123 =
     Some (0, Some (example_probed_tpg 0x100a XTPG_FMT_INVALID))"
    by (simp add: xlnx_tpg_probe_def example_env_def f xlnx_of_find_vtc_def example_mem_def
        example_mem_123_def example_list_123_def find_vtc_loop.simps
        NULL_def xlnx_tpg_drm_init_def xlnx_tpg_pipeline_init_def xlnx_tpg_map_resources_def
        xlnx_tpg_setup_irq_def xlnx_tpg_enable_irq_def xlnx_tpg_create_properties_def
        xlnx_tpg_set_pattern_def xlnx_tpg_write_def example_probed_tpg_def zeroed_tpg_def Let_def)
  have c: "fst (xlnx_tpg_crtc_check 0 0 (example_probed_tpg 0x100a XTPG_FMT_INVALID)
     (example_commit 0x100a)) = 0"
    by (simp add: xlnx_tpg_crtc_check_def example_probed_tpg_def example_commit_def Let_def)
  have e: "regs (xlnx_tpg_crtc_enable example_to_videomode example_mem
          ((example_probed_tpg 0x100a XTPG_FMT_INVALID)
             \<lparr>crtc_state := new_crtc_state (example_commit 0x100a)\<rparr>)) XLNX_TPG_COLOR_FORMAT = 4"
    "regs (xlnx_tpg_crtc_enable example_to_videomode example_mem
          ((example_probed_tpg 0x100a XTPG_FMT_INVALID)
             \<lparr>crtc_state := new_crtc_state (example_commit 0x100a)\<rparr>)) XLNX_TPG_CONTROL = 0x81"
    by (simp_all add: xlnx_tpg_crtc_enable_def xlnx_tpg_set_dimensions_def xlnx_tpg_set_format_def
        xlnx_tpg_start_def xlnx_tpg_write_def example_probed_tpg_def Let_def
        XLNX_TPG_COLOR_FORMAT_def XLNX_TPG_CONTROL_def XLNX_TPG_START_def
        XLNX_TPG_AUTO_RESTART_def BIT_def XLNX_TPG_ACTIVE_HEIGHT_def XLNX_TPG_ACTIVE_WIDTH_def)
  from f p c e show ?thesis by simp
qed

subsection \<open>The interrupt handler against disabling\<close>

lemmas step_defs = irq_step_def disable_step_def xlnx_tpg_write_def call_def
  xlnx_tpg_read_def xlnx_vtc_iface_disable_def Let_def

lemma irq_inv_step: "irq_inv s \<Longrightarrow> irq_inv (step mem a s)"
  by (cases a; cases "irq_at s"; cases "disable_at s")
     (auto simp: irq_inv_def step_defs split: option.splits)

lemma send_budget_step: "irq_inv s \<Longrightarrow> send_budget e (step mem a s) \<le> send_budget e s"
  by (cases a; cases "irq_at s"; cases "disable_at s")
     (auto simp: irq_inv_def send_budget_def sends_def step_defs split: option.splits)

lemma send_budget_run: "irq_inv s \<Longrightarrow> send_budget e (run mem acts s) \<le> send_budget e s"
proof (induction acts arbitrary: s)
  case Nil
  then show ?case by simp
next
  case (Cons a acts)
  have "send_budget e (run mem acts (step mem a s)) \<le> send_budget e (step mem a s)"
    using Cons.IH[OF irq_inv_step[OF Cons.prems]] .
  also have "\<dots> \<le> send_budget e s"
    using Cons.prems by (rule send_budget_step)
  finally show ?case by simp
qed

lemma complete_budget_step: "complete_budget c (step mem a s) \<le> complete_budget c s"
  by (cases a; cases "irq_at s"; cases "disable_at s")
     (auto simp: complete_budget_def completes_def step_defs split: option.splits)

lemma complete_budget_run: "complete_budget c (run mem acts s) \<le> complete_budget c s"
proof (induction acts arbitrary: s)
  case Nil
  then show ?case by simp
next
  case (Cons a acts)
  have "complete_budget c (run mem acts (step mem a s)) \<le> complete_budget c (step mem a s)"
    by (rule Cons.IH)
  also have "\<dots> \<le> complete_budget c s"
    by (rule complete_budget_step)
  finally show ?case by simp
qed

text \<open>
  Claim C8.  In every interleaving of statements of the interrupt handler and of
  disabling (and of the hardware latching its status), started between
  invocations, an event is sent at most once more than it had been, and only if
  it was in the slot \<^verbatim>\<open>tpg->drm->event\<close>; a completion is completed at most once
  more, and only if the CRTC's state held an event with that completion.
\<close>

theorem pending_event_sent_at_most_once:
  assumes "irq_at s = I_read" and "disable_at s = D_vtc"
  shows "sends e (run mem acts s) \<le>
           sends e s + (if drm_event (sys_tpg s) = Some e then 1 else 0) \<and>
         completes c (run mem acts s) \<le>
           completes c s +
           (case state_event (crtc_state (sys_tpg s)) of
              None \<Rightarrow> 0
            | Some e' \<Rightarrow> if base_completion e' = c then 1 else 0)"
proof
  have "irq_inv s"
    using assms by (simp add: irq_inv_def)
  then have "send_budget e (run mem acts s) \<le> send_budget e s"
    by (rule send_budget_run)
  moreover have "sends e (run mem acts s) \<le> send_budget e (run mem acts s)"
    by (simp add: send_budget_def)
  moreover have "send_budget e s = sends e s + (if drm_event (sys_tpg s) = Some e then 1 else 0)"
    using assms by (simp add: send_budget_def)
  ultimately show "sends e (run mem acts s) \<le>
      sends e s + (if drm_event (sys_tpg s) = Some e then 1 else 0)"
    by linarith
next
  have "complete_budget c (run mem acts s) \<le> complete_budget c s"
    by (rule complete_budget_run)
  moreover have "completes c (run mem acts s) \<le> complete_budget c (run mem acts s)"
    by (simp add: complete_budget_def)
  moreover have "complete_budget c s = completes c s +
      (case state_event (crtc_state (sys_tpg s)) of
         None \<Rightarrow> 0
       | Some e' \<Rightarrow> if base_completion e' = c then 1 else 0)"
    using assms by (simp add: complete_budget_def split: option.splits)
  ultimately show "completes c (run mem acts s) \<le>
      completes c s +
      (case state_event (crtc_state (sys_tpg s)) of
         None \<Rightarrow> 0
       | Some e' \<Rightarrow> if base_completion e' = c then 1 else 0)"
    by linarith
qed

theorem pending_event_sent_at_most_once_witness:
  "irq_at example_sys = I_read \<and> disable_at example_sys = D_vtc \<and>
   sends example_event example_sys = 0 \<and>
   drm_event (sys_tpg example_sys) = Some example_event \<and>
   sends example_event (run example_mem example_acts example_sys) = 1 \<and>
   completes 50 (run example_mem example_acts example_sys) = 0"
proof -
  have h: "irq_at example_sys = I_read" "disable_at example_sys = D_vtc"
    by (simp_all add: example_sys_def)
  have a: "example_armed_tpg = example_tpg\<lparr>drm_event := Some example_event,
      calls := [Drm_crtc_vblank_on, Drm_crtc_vblank_get]\<rparr>"
    by (simp add: example_armed_tpg_def xlnx_tpg_plane_atomic_update_def example_flip_tpg_def
      example_tpg_def call_def example_event_def)
  have r: "sends example_event (run example_mem example_acts example_sys) = 1"
    "completes 50 (run example_mem example_acts example_sys) = 0"
    "sends example_event example_sys = 0"
    "drm_event (sys_tpg example_sys) = Some example_event"
    by (simp_all add: sends_def completes_def example_sys_def example_acts_def a example_tpg_def
        irq_step_def disable_step_def call_def xlnx_tpg_read_def xlnx_tpg_write_def
        xlnx_vtc_iface_disable_def example_mem_def NULL_def XLNX_TPG_IP_IRQ_STATUS_def
        XLNX_TPG_IP_IRQ_AP_DONE_def BIT_def example_event_def Let_def)
  from pending_event_sent_at_most_once [OF h, of example_event example_mem example_acts 50] h r show ?thesis
    by simp
qed

text \<open>
  Run on its own, the statements of the handler amount to \<open>xlnx_tpg_irq_handler\<close>,
  and those of disabling to \<open>xlnx_tpg_crtc_disable\<close>.
\<close>

lemma irq_steps_are_handler:
  assumes "irq_at s = I_read" and "\<not> event_lock s"
  shows "\<exists>n \<le> 10.
           sys_tpg (run mem (replicate n Irq_step) s) = snd (xlnx_tpg_irq_handler (sys_tpg s)) \<and>
           irq_at (run mem (replicate n Irq_step) s) = I_read \<and>
           \<not> event_lock (run mem (replicate n Irq_step) s)"
proof (cases "regs (sys_tpg s) XLNX_TPG_IP_IRQ_STATUS AND XLNX_TPG_IP_IRQ_AP_DONE = 0")
  case True
  with assms show ?thesis
    by (intro exI[of _ 3])
       (simp add: numeral_eq_Suc irq_step_def xlnx_tpg_irq_handler_def xlnx_tpg_write_def
          xlnx_tpg_read_def call_def Let_def)
next
  case False
  show ?thesis
  proof (cases "drm_event (sys_tpg s)")
    case None
    with False assms show ?thesis
      by (intro exI[of _ 9])
         (simp add: numeral_eq_Suc irq_step_def xlnx_tpg_irq_handler_def xlnx_tpg_write_def
            xlnx_tpg_read_def call_def Let_def)
  next
    case (Some e)
    with False assms show ?thesis
      by (intro exI[of _ 10])
         (simp add: numeral_eq_Suc irq_step_def xlnx_tpg_irq_handler_def xlnx_tpg_write_def
            xlnx_tpg_read_def call_def Let_def)
  qed
qed

lemma disable_steps_are_disable:
  assumes "disable_at s = D_vtc"
  shows "\<exists>n \<le> 4.
           sys_tpg (run mem (replicate n Disable_step) s) =
             xlnx_tpg_crtc_disable mem (sys_tpg s) \<and>
           disable_at (run mem (replicate n Disable_step) s) = D_vtc"
proof (cases "state_event (crtc_state (sys_tpg s))")
  case None
  with assms show ?thesis
    by (intro exI[of _ 3])
       (simp add: numeral_eq_Suc disable_step_def xlnx_tpg_crtc_disable_def call_def Let_def)
next
  case (Some e)
  with assms show ?thesis
    by (intro exI[of _ 4])
       (simp add: numeral_eq_Suc disable_step_def xlnx_tpg_crtc_disable_def call_def Let_def)
qed

end
